theory Spec2Isabelle
  imports Complex_Main "HOL-Library.Multiset" "HOL-Library.Sublist"
    "HOL-Library.List_Lexorder" "HOL-Library.Char_ord" "HOL-Library.Monad_Syntax"
begin

section \<open>The store: items and price observations\<close>

text \<open>
  The program keeps its state in an SQLite file with two tables that matter here,
  \<open>items\<close> and \<open>prices\<close> (\<open>database.py\<close>, \<open>init_db\<close>). A table is modelled as the list
  of its rows in insertion order, a nullable column as an \<open>option\<close>, \<open>REAL\<close> columns and
  Python floats as \<open>real\<close> (rounding, infinities and NaN are not modelled), \<open>TEXT\<close> as
  \<open>string\<close> (the bytes of the UTF-8 encoding, which is what SQLite's default BINARY
  collation compares), and a timestamp as the number of seconds since some epoch:
  \<open>CURRENT_TIMESTAMP\<close> has a resolution of one second, and the text form
  \<open>YYYY-MM-DD HH:MM:SS\<close> is ordered as the instants are. \<open>AUTOINCREMENT\<close> is the counter
  of the next id. Integers are Python's unbounded ones; values are taken to be in the
  range that the SQLite binding accepts.
\<close>

type_synonym timestamp = int

record item =
  i_id :: int
  i_name :: string
  i_set_name :: "string option"
  i_card_number :: "string option"
  i_rarity :: "string option"
  i_variance :: "string option"
  i_quantity :: int
  i_cost_basis :: "real option"
  i_is_sealed :: int
  i_api_id :: "string option"
  i_portfolio_name :: "string option"
  i_grade :: "string option"
  i_condition :: "string option"
  i_notes :: "string option"
  i_date_added :: "string option"
  i_created_at :: timestamp
  i_updated_at :: timestamp

record price_row =
  p_id :: int
  p_item_id :: int
  p_price :: real
  p_timestamp :: timestamp

record db =
  items :: "item list"
  prices :: "price_row list"
  next_item_id :: int
  next_price_id :: int

text \<open>\<open>init_db\<close> on a fresh file: both tables empty, the first ids are 1.\<close>

definition init_db :: db where
  "init_db = \<lparr>items = [], prices = [], next_item_id = 1, next_price_id = 1\<rparr>"

text \<open>The keyword arguments of \<open>upsert_item\<close>.\<close>

record upsert_args =
  a_name :: string
  a_set_name :: "string option"
  a_card_number :: "string option"
  a_rarity :: "string option"
  a_variance :: "string option"
  a_quantity :: int
  a_cost_basis :: "real option"
  a_is_sealed :: bool
  a_api_id :: "string option"
  a_portfolio_name :: "string option"
  a_grade :: "string option"
  a_condition :: "string option"
  a_notes :: "string option"
  a_date_added :: "string option"

text \<open>
  The \<open>WHERE\<close> clause of the lookup in \<open>upsert_item\<close>: \<open>name = ?\<close> on a \<open>NOT NULL\<close>
  column, and the NULL-safe \<open>IS ?\<close> on the five optional columns, which is equality of
  options.
\<close>

definition key_match :: "upsert_args \<Rightarrow> item \<Rightarrow> bool" where
  "key_match a it \<longleftrightarrow>
     i_name it = a_name a \<and> i_set_name it = a_set_name a \<and>
     i_card_number it = a_card_number a \<and> i_variance it = a_variance a \<and>
     i_grade it = a_grade a \<and> i_condition it = a_condition a"

text \<open>\<open>COALESCE(x, y)\<close>: the first argument that is not NULL.\<close>

definition coalesce :: "'a option \<Rightarrow> 'a option \<Rightarrow> 'a option" where
  "coalesce x y = (case x of Some v \<Rightarrow> Some v | None \<Rightarrow> y)"

text \<open>The \<open>UPDATE\<close> of \<open>upsert_item\<close> on one row; \<open>now\<close> is \<open>datetime.now()\<close>.\<close>

definition update_row :: "timestamp \<Rightarrow> upsert_args \<Rightarrow> item \<Rightarrow> item" where
  "update_row now a it = it
     \<lparr>i_rarity := a_rarity a,
      i_quantity := a_quantity a,
      i_cost_basis := a_cost_basis a,
      i_is_sealed := of_bool (a_is_sealed a),
      i_api_id := coalesce (a_api_id a) (i_api_id it),
      i_portfolio_name := a_portfolio_name a,
      i_notes := a_notes a,
      i_date_added := a_date_added a,
      i_updated_at := now\<rparr>"

text \<open>
  The \<open>INSERT\<close> of \<open>upsert_item\<close>: the id comes from the counter, both timestamps
  default to the current time.
\<close>

definition new_row :: "timestamp \<Rightarrow> upsert_args \<Rightarrow> int \<Rightarrow> item" where
  "new_row now a item_id =
     \<lparr>i_id = item_id,
      i_name = a_name a,
      i_set_name = a_set_name a,
      i_card_number = a_card_number a,
      i_rarity = a_rarity a,
      i_variance = a_variance a,
      i_quantity = a_quantity a,
      i_cost_basis = a_cost_basis a,
      i_is_sealed = of_bool (a_is_sealed a),
      i_api_id = a_api_id a,
      i_portfolio_name = a_portfolio_name a,
      i_grade = a_grade a,
      i_condition = a_condition a,
      i_notes = a_notes a,
      i_date_added = a_date_added a,
      i_created_at = now,
      i_updated_at = now\<rparr>"

text \<open>
  \<open>upsert_item\<close>: \<open>fetchone\<close> takes the first row that matches (\<open>find\<close>); the \<open>UPDATE\<close>
  touches every row with that id; the function returns the id and the new store.
\<close>

definition upsert_item :: "timestamp \<Rightarrow> upsert_args \<Rightarrow> db \<Rightarrow> int \<times> db" where
  "upsert_item now a d =
     (case find (key_match a) (items d) of
        Some row \<Rightarrow>
          (let item_id = i_id row
           in (item_id,
               d\<lparr>items := map (\<lambda>it. if i_id it = item_id then update_row now a it else it)
                                (items d)\<rparr>))
      | None \<Rightarrow>
          (let item_id = next_item_id d
           in (item_id,
               d\<lparr>items := items d @ [new_row now a item_id],
                 next_item_id := item_id + 1\<rparr>)))"

text \<open>\<open>record_price\<close>: one row appended, stamped by the database with the current time.\<close>

definition record_price :: "timestamp \<Rightarrow> int \<Rightarrow> real \<Rightarrow> db \<Rightarrow> db" where
  "record_price now item_id price d =
     d\<lparr>prices := prices d @
          [\<lparr>p_id = next_price_id d, p_item_id = item_id, p_price = price, p_timestamp = now\<rparr>],
       next_price_id := next_price_id d + 1\<rparr>"

text \<open>\<open>update_item_api_id\<close>: an unconditional point update.\<close>

definition update_item_api_id :: "timestamp \<Rightarrow> int \<Rightarrow> string \<Rightarrow> db \<Rightarrow> db" where
  "update_item_api_id now item_id api_id d =
     d\<lparr>items := map (\<lambda>it. if i_id it = item_id
                           then it\<lparr>i_api_id := Some api_id, i_updated_at := now\<rparr> else it)
                      (items d)\<rparr>"

text \<open>\<open>update_item_cost_basis\<close>: a point update that reports whether a row was affected.\<close>

definition update_item_cost_basis :: "timestamp \<Rightarrow> int \<Rightarrow> real \<Rightarrow> db \<Rightarrow> bool \<times> db" where
  "update_item_cost_basis now item_id cost_basis d =
     (let affected = length (filter (\<lambda>it. i_id it = item_id) (items d))
      in (affected > 0,
          d\<lparr>items := map (\<lambda>it. if i_id it = item_id
                                then it\<lparr>i_cost_basis := Some cost_basis, i_updated_at := now\<rparr>
                                else it)
                           (items d)\<rparr>))"

text \<open>
  Every write the program can make to the store is one of these four calls; a history
  is a list of them, run from left to right.
\<close>

datatype db_op =
    Upsert timestamp upsert_args
  | RecordPrice timestamp int real
  | UpdateApiId timestamp int string
  | UpdateCostBasis timestamp int real

fun apply_op :: "db_op \<Rightarrow> db \<Rightarrow> db" where
  "apply_op (Upsert now a) d = snd (upsert_item now a d)"
| "apply_op (RecordPrice now i p) d = record_price now i p d"
| "apply_op (UpdateApiId now i s) d = update_item_api_id now i s d"
| "apply_op (UpdateCostBasis now i c) d = snd (update_item_cost_basis now i c d)"

fun run :: "db_op list \<Rightarrow> db \<Rightarrow> db" where
  "run [] d = d"
| "run (x # xs) d = run xs (apply_op x d)"

text \<open>The natural key of a row and of a call.\<close>

type_synonym natural_key =
  "string \<times> string option \<times> string option \<times> string option \<times> string option \<times> string option"

definition item_key :: "item \<Rightarrow> natural_key" where
  "item_key it =
     (i_name it, i_set_name it, i_card_number it, i_variance it, i_grade it, i_condition it)"

definition args_key :: "upsert_args \<Rightarrow> natural_key" where
  "args_key a =
     (a_name a, a_set_name a, a_card_number a, a_variance a, a_grade a, a_condition a)"

text \<open>The rows of the items table that carry a given natural key.\<close>

definition rows_with_key :: "natural_key \<Rightarrow> db \<Rightarrow> item list" where
  "rows_with_key k d = filter (\<lambda>it. item_key it = k) (items d)"

text \<open>
  The invariant of the items table: ids are unique and below the counter, and no two
  rows carry the same natural key.
\<close>

definition id_keys :: "db \<Rightarrow> (int \<times> natural_key) list" where
  "id_keys d = map (\<lambda>it. (i_id it, item_key it)) (items d)"

definition wf_db :: "db \<Rightarrow> bool" where
  "wf_db d \<longleftrightarrow>
     distinct (map i_id (items d)) \<and> (\<forall>it \<in> set (items d). i_id it < next_item_id d) \<and>
     distinct (map item_key (items d))"

section \<open>Queries: the per-item view and the summary statistics\<close>

text \<open>
  SQL aggregates: \<open>MAX\<close> and \<open>SUM\<close> over no rows are NULL. A \<open>LEFT JOIN\<close> pairs a row
  with every match of the right table, or with one all-NULL row when there is none.
\<close>

fun sql_max :: "timestamp list \<Rightarrow> timestamp option" where
  "sql_max [] = None"
| "sql_max (x # xs) = (case sql_max xs of None \<Rightarrow> Some x | Some m \<Rightarrow> Some (max x m))"

definition sql_sum :: "'a::monoid_add list \<Rightarrow> 'a option" where
  "sql_sum xs = (if xs = [] then None else Some (sum_list xs))"

definition left_join :: "('b \<Rightarrow> bool) \<Rightarrow> 'b list \<Rightarrow> 'b option list" where
  "left_join P ps = (case filter P ps of [] \<Rightarrow> [None] | m # ms \<Rightarrow> map Some (m # ms))"

text \<open>
  A row of \<open>get_all_items\<close>: the columns of the item, then \<open>current_price\<close>,
  \<open>price_timestamp\<close> and \<open>previous_price\<close>.
\<close>

record item_row = item +
  current_price :: "real option"
  price_timestamp :: "timestamp option"
  previous_price :: "real option"

definition join_row :: "item \<Rightarrow> price_row option \<Rightarrow> price_row option \<Rightarrow> item_row" where
  "join_row i p1 p2 = item.extend i
     \<lparr>current_price = map_option p_price p1,
      price_timestamp = map_option p_timestamp p1,
      previous_price = map_option p_price p2\<rparr>"

text \<open>
  The \<open>ON\<close> condition of the first join: \<open>p1\<close> belongs to the item and carries the
  greatest timestamp among the item's observations.
\<close>

definition is_latest :: "price_row list \<Rightarrow> item \<Rightarrow> price_row \<Rightarrow> bool" where
  "is_latest ps i p1 \<longleftrightarrow>
     i_id i = p_item_id p1 \<and>
     Some (p_timestamp p1) = sql_max [p_timestamp q. q \<leftarrow> ps, p_item_id q = i_id i]"

text \<open>
  The \<open>ON\<close> condition of the second join: \<open>p2\<close> belongs to the item and carries the
  greatest timestamp strictly below that of \<open>p1\<close>. When \<open>p1\<close> is the NULL row the
  comparison with its timestamp is never true, so nothing matches.
\<close>

definition is_previous :: "price_row list \<Rightarrow> item \<Rightarrow> price_row option \<Rightarrow> price_row \<Rightarrow> bool" where
  "is_previous ps i p1 p2 \<longleftrightarrow>
     (case p1 of
        None \<Rightarrow> False
      | Some c \<Rightarrow>
          i_id i = p_item_id p2 \<and>
          Some (p_timestamp p2) =
            sql_max [p_timestamp q. q \<leftarrow> ps, p_item_id q = i_id i, p_timestamp q < p_timestamp c])"

definition item_rows :: "price_row list \<Rightarrow> item \<Rightarrow> item_row list" where
  "item_rows ps i =
     concat (map (\<lambda>p1. map (\<lambda>p2. join_row i p1 p2) (left_join (is_previous ps i p1) ps))
                 (left_join (is_latest ps i) ps))"

text \<open>
  \<open>get_all_items\<close>: the joined rows, ordered by name (bytewise, as the BINARY collation
  does). SQL leaves the order of rows with equal names open; the model keeps them in
  table order.
\<close>

definition get_all_items :: "db \<Rightarrow> item_row list" where
  "get_all_items d = sort_key i_name (concat (map (item_rows (prices d)) (items d)))"

text \<open>
  The per-item view of the price series: the (current, previous) pairs that
  \<open>get_all_items\<close> reports for an item id.
\<close>

definition latest_and_previous :: "int \<Rightarrow> db \<Rightarrow> (real option \<times> real option) list" where
  "latest_and_previous item_id d =
     map (\<lambda>r. (current_price r, previous_price r))
         (filter (\<lambda>r. i_id r = item_id) (get_all_items d))"

text \<open>
  Python raises \<open>ZeroDivisionError\<close> on a division by zero, of floats as of integers. A
  computation that can raise returns an \<open>option\<close>, where \<open>None\<close> is the exception.
\<close>

definition py_div :: "real \<Rightarrow> real \<Rightarrow> real option" where
  "py_div a b = (if b = 0 then None else Some (a / b))"

text \<open>Truth value of an optional number in Python: \<open>None\<close> and zero are false.\<close>

definition truthy :: "real option \<Rightarrow> bool" where
  "truthy x = (case x of None \<Rightarrow> False | Some v \<Rightarrow> v \<noteq> 0)"

text \<open>The three value queries of \<open>get_summary_stats\<close>.\<close>

definition total_value_query :: "db \<Rightarrow> real option" where
  "total_value_query d =
     sql_sum [of_int (i_quantity i) * p_price p.
              i \<leftarrow> items d, p \<leftarrow> prices d, i_id i = p_item_id p,
              Some (p_timestamp p) = sql_max [p_timestamp q. q \<leftarrow> prices d, p_item_id q = i_id i]]"

definition total_cost_query :: "db \<Rightarrow> real option" where
  "total_cost_query d =
     sql_sum [of_int (i_quantity i) * c. i \<leftarrow> items d, Some c \<leftarrow> [i_cost_basis i]]"

text \<open>\<open>datetime('now', '-1 day')\<close> is 86400 seconds before \<open>now\<close>.\<close>

definition prev_value_query :: "timestamp \<Rightarrow> db \<Rightarrow> real option" where
  "prev_value_query now d =
     sql_sum [of_int (i_quantity i) * p_price p.
              i \<leftarrow> items d, p \<leftarrow> prices d, i_id i = p_item_id p,
              Some (p_timestamp p) =
                sql_max [p_timestamp q. q \<leftarrow> prices d, p_item_id q = i_id i,
                                        p_timestamp q < now - 86400]]"

record stats =
  s_item_count :: int
  s_total_quantity :: "int option"
  s_sealed_count :: "int option"
  s_card_count :: "int option"
  s_total_value :: real
  s_total_cost :: real
  s_prev_value :: real
  s_daily_change :: real
  s_daily_change_pct :: real
  s_total_profit :: "real option"

text \<open>
  \<open>get_summary_stats\<close>. \<open>x if x else y\<close> on a query result takes \<open>y\<close> when the result is
  NULL or zero.
\<close>

definition get_summary_stats :: "timestamp \<Rightarrow> db \<Rightarrow> stats option" where
  "get_summary_stats now d =
     (let total_value = (if truthy (total_value_query d)
                         then (case total_value_query d of Some v \<Rightarrow> v | None \<Rightarrow> 0) else 0);
          total_cost = (if truthy (total_cost_query d)
                        then (case total_cost_query d of Some v \<Rightarrow> v | None \<Rightarrow> 0) else 0);
          prev_value = (if truthy (prev_value_query now d)
                        then (case prev_value_query now d of Some v \<Rightarrow> v | None \<Rightarrow> total_value)
                        else total_value)
      in do {
        daily_change_pct \<leftarrow>
          (if prev_value \<noteq> 0
           then do { q \<leftarrow> py_div (total_value - prev_value) prev_value; Some (q * 100) }
           else Some 0);
        Some \<lparr>s_item_count = int (length (items d)),
              s_total_quantity = sql_sum (map i_quantity (items d)),
              s_sealed_count = sql_sum (map (\<lambda>i. if i_is_sealed i = 1 then 1 else 0) (items d)),
              s_card_count = sql_sum (map (\<lambda>i. if i_is_sealed i = 0 then 1 else 0) (items d)),
              s_total_value = total_value,
              s_total_cost = total_cost,
              s_prev_value = prev_value,
              s_daily_change = total_value - prev_value,
              s_daily_change_pct = daily_change_pct,
              s_total_profit = (if total_cost \<noteq> 0 then Some (total_value - total_cost) else None)\<rparr>
      })"

section \<open>The analytics engine\<close>

text \<open>
  \<open>analyze_portfolio\<close> (\<open>web.py\<close>) adds six keys to every row it got from
  \<open>get_all_items\<close>. The lists \<open>cards\<close> and \<open>sealed\<close> are built before that loop but hold
  the same dictionaries, so their rows carry the new keys as well.
\<close>

record analysed_item = item_row +
  it_total_value :: real
  change :: real
  change_pct :: real
  it_total_cost :: real
  pnl :: "real option"
  pnl_pct :: "real option"

text \<open>\<open>x or y\<close> on an optional number.\<close>

definition or_else :: "real option \<Rightarrow> real \<Rightarrow> real" where
  "or_else x y = (case x of None \<Rightarrow> y | Some v \<Rightarrow> if v \<noteq> 0 then v else y)"

text \<open>
  The body of the loop over the items. Reading a number out of an absent value
  (\<open>x \<leftarrow> current_price r\<close>) would raise in Python, as a division by zero does.
\<close>

definition analyse_item :: "item_row \<Rightarrow> analysed_item option" where
  "analyse_item r =
     (let total_value = or_else (current_price r) 0 * of_int (i_quantity r);
          total_cost = or_else (i_cost_basis r) 0 * of_int (i_quantity r)
      in do {
        (chg, chg_pct) \<leftarrow>
          (if truthy (previous_price r) \<and> truthy (current_price r)
           then do {
             cur \<leftarrow> current_price r;
             prev \<leftarrow> previous_price r;
             q \<leftarrow> py_div (cur - prev) prev;
             Some (cur - prev, q * 100) }
           else Some (0, 0));
        (pl, pl_pct) \<leftarrow>
          (if truthy (i_cost_basis r) \<and> (case i_cost_basis r of Some c \<Rightarrow> c > 0 | None \<Rightarrow> False)
               \<and> truthy (current_price r)
           then do {
             cur \<leftarrow> current_price r;
             cost \<leftarrow> i_cost_basis r;
             q \<leftarrow> py_div (cur - cost) cost;
             Some (Some (total_value - total_cost), Some (q * 100)) }
           else Some (None, None));
        Some (item_row.extend r
               \<lparr>it_total_value = total_value, change = chg, change_pct = chg_pct,
                it_total_cost = total_cost, pnl = pl, pnl_pct = pl_pct\<rparr>)
      })"

fun analyse_items :: "item_row list \<Rightarrow> analysed_item list option" where
  "analyse_items [] = Some []"
| "analyse_items (r # rs) =
     do { a \<leftarrow> analyse_item r; as \<leftarrow> analyse_items rs; Some (a # as) }"

text \<open>
  \<open>sorted(xs, key=f)\<close> is a stable sort, which \<open>sort_key\<close> is; with \<open>reverse=True\<close> the
  keys descend and rows with equal keys keep their order.
\<close>

definition sorted_desc :: "('a \<Rightarrow> real) \<Rightarrow> 'a list \<Rightarrow> 'a list" where
  "sorted_desc f xs = rev (sort_key f (rev xs))"

text \<open>
  The per-set rollup: a dictionary in insertion order from the set name to the pair
  of \<open>count\<close> and \<open>value\<close>.
\<close>

fun add_to_set :: "string \<Rightarrow> int \<Rightarrow> real \<Rightarrow> (string \<times> int \<times> real) list \<Rightarrow> (string \<times> int \<times> real) list"
  where
  "add_to_set k q v [] = [(k, 0 + q, 0 + v)]"
| "add_to_set k q v ((k', c, w) # rest) =
     (if k' = k then (k', c + q, w + v) # rest else (k', c, w) # add_to_set k q v rest)"

fun rollup_sets :: "analysed_item list \<Rightarrow> (string \<times> int \<times> real) list \<Rightarrow> (string \<times> int \<times> real) list"
  where
  "rollup_sets [] sets = sets"
| "rollup_sets (i # is) sets =
     rollup_sets is
       (add_to_set (case i_set_name i of None \<Rightarrow> ''Unknown'' | Some s \<Rightarrow> if s = [] then ''Unknown'' else s)
                   (i_quantity i) (it_total_value i) sets)"

record composition_part =
  c_count :: nat
  c_value :: real
  c_pct :: real

record composition =
  cards :: composition_part
  sealed :: composition_part

record concentration =
  top_5_value :: real
  top_5_pct :: real
  top_holdings :: "analysed_item list"

record movers =
  gainers :: "analysed_item list"
  losers :: "analysed_item list"

record performers =
  best :: "analysed_item list"
  worst :: "analysed_item list"

record analysis =
  an_error :: "string option"
  an_total_value :: real
  an_total_cost :: real
  an_total_profit :: "real option"
  an_item_count :: int
  an_total_quantity :: "int option"
  an_daily_change :: real
  an_daily_change_pct :: real
  an_composition :: composition
  an_concentration :: concentration
  an_movers :: movers
  an_performers :: performers
  an_sets :: "(string \<times> int \<times> real) list"
  an_items :: "analysed_item list"

text \<open>The early return of \<open>analyze_portfolio\<close> when the store has no items.\<close>

definition no_items_analysis :: analysis where
  "no_items_analysis =
     \<lparr>an_error = Some ''No items in portfolio'',
      an_total_value = 0, an_total_cost = 0, an_total_profit = None,
      an_item_count = 0, an_total_quantity = Some 0,
      an_daily_change = 0, an_daily_change_pct = 0,
      an_composition = \<lparr>cards = \<lparr>c_count = 0, c_value = 0, c_pct = 0\<rparr>,
                        sealed = \<lparr>c_count = 0, c_value = 0, c_pct = 0\<rparr>\<rparr>,
      an_concentration = \<lparr>top_5_value = 0, top_5_pct = 0, top_holdings = []\<rparr>,
      an_movers = \<lparr>gainers = [], losers = []\<rparr>,
      an_performers = \<lparr>best = [], worst = []\<rparr>,
      an_sets = [],
      an_items = []\<rparr>"

text \<open>\<open>a / b * 100 if b else 0\<close>.\<close>

definition pct_of :: "real \<Rightarrow> real \<Rightarrow> real option" where
  "pct_of a b = (if b \<noteq> 0 then do { q \<leftarrow> py_div a b; Some (q * 100) } else Some 0)"

text \<open>
  \<open>analyze_portfolio\<close> as a function of what its first two lines read from the store:
  the rows of \<open>get_all_items\<close> and the result of \<open>get_summary_stats\<close>.
\<close>

definition analyze :: "item_row list \<Rightarrow> stats \<Rightarrow> analysis option" where
  "analyze rows st =
     (if rows = [] then Some no_items_analysis
      else do {
        its \<leftarrow> analyse_items rows;
        let cards_l = filter (\<lambda>i. i_is_sealed i = 0) its;
        let sealed_l = filter (\<lambda>i. i_is_sealed i \<noteq> 0) its;
        let total_value = s_total_value st;
        let cards_value = sum_list (map it_total_value cards_l);
        let sealed_value = sum_list (map it_total_value sealed_l);
        let sorted_by_value = sorted_desc it_total_value its;
        let top_5 = sum_list (map it_total_value (take 5 sorted_by_value));
        top_pct \<leftarrow> pct_of top_5 total_value;
        let with_changes = filter (\<lambda>i. change_pct i \<noteq> 0) its;
        let gainers_l = take 5 (sorted_desc change_pct (filter (\<lambda>i. change_pct i > 0) with_changes));
        let losers_l = take 5 (sort_key change_pct (filter (\<lambda>i. change_pct i < 0) with_changes));
        let with_pnl = filter (\<lambda>i. pnl_pct i \<noteq> None) its;
        let best_pnl = take 5 (sorted_desc (\<lambda>i. case pnl_pct i of Some v \<Rightarrow> v | None \<Rightarrow> 0) with_pnl);
        let worst_pnl = take 5 (sort_key (\<lambda>i. case pnl_pct i of Some v \<Rightarrow> v | None \<Rightarrow> 0) with_pnl);
        let sets = rollup_sets its [];
        cards_pct \<leftarrow> pct_of cards_value total_value;
        sealed_pct \<leftarrow> pct_of sealed_value total_value;
        Some \<lparr>an_error = None,
              an_total_value = total_value,
              an_total_cost = s_total_cost st,
              an_total_profit = s_total_profit st,
              an_item_count = s_item_count st,
              an_total_quantity = s_total_quantity st,
              an_daily_change = s_daily_change st,
              an_daily_change_pct = s_daily_change_pct st,
              an_composition =
                \<lparr>cards = \<lparr>c_count = length cards_l, c_value = cards_value, c_pct = cards_pct\<rparr>,
                 sealed = \<lparr>c_count = length sealed_l, c_value = sealed_value, c_pct = sealed_pct\<rparr>\<rparr>,
              an_concentration =
                \<lparr>top_5_value = top_5, top_5_pct = top_pct, top_holdings = take 10 sorted_by_value\<rparr>,
              an_movers = \<lparr>gainers = gainers_l, losers = losers_l\<rparr>,
              an_performers = \<lparr>best = best_pnl, worst = worst_pnl\<rparr>,
              an_sets = take 10 (sorted_desc (\<lambda>(k, c, v). v) sets),
              an_items = its\<rparr>
      })"

definition analyze_portfolio :: "timestamp \<Rightarrow> db \<Rightarrow> analysis option" where
  "analyze_portfolio now d =
     do { st \<leftarrow> get_summary_stats now d; analyze (get_all_items d) st }"

section \<open>The recommendation heuristics\<close>

text \<open>
  The texts of a recommendation are f-strings. A text is kept as the list of its
  pieces: literal text, an integer printed in decimal, a float printed with \<open>:.0f\<close>,
  and the first \<open>n\<close> characters of a string (\<open>s[:n]\<close>).
\<close>

datatype frag = Lit string | IntF int | Fix0 real | Chars nat string













section \<open>Import reconciliation\<close>

text \<open>
  \<open>s in t\<close> on strings is substring search. \<open>str.lower\<close> is a parameter of the model:
  what it does to characters outside ASCII is Python's business; on ASCII it is
  \<open>ascii_lower\<close>.
\<close>

fun contains :: "string \<Rightarrow> string \<Rightarrow> bool" where
  "contains k [] = (k = [])"
| "contains k (c # s) = (prefix k (c # s) \<or> contains k s)"

definition lower_char :: "char \<Rightarrow> char" where
  "lower_char c =
     (if CHR ''A'' \<le> c \<and> c \<le> CHR ''Z'' then char_of (of_char c + (32 :: nat)) else c)"

definition ascii_lower :: "string \<Rightarrow> string" where
  "ascii_lower s = map lower_char s"

definition sealed_keywords :: "string list" where
  "sealed_keywords =
     [''sealed'', ''booster'', ''box'', ''pack'', ''etb'', ''elite trainer'',
      ''collection'', ''tin'', ''bundle'', ''case'', ''display'']"

text \<open>The loop over the keywords, with its early return.\<close>

fun any_keyword :: "string list \<Rightarrow> string \<Rightarrow> bool" where
  "any_keyword [] name_lower = False"
| "any_keyword (keyword # rest) name_lower =
     (if contains keyword name_lower then True else any_keyword rest name_lower)"

text \<open>\<open>x or ""\<close> on an optional string.\<close>

definition or_empty :: "string option \<Rightarrow> string" where
  "or_empty x = (case x of None \<Rightarrow> [] | Some s \<Rightarrow> s)"

definition is_sealed_product :: "(string \<Rightarrow> string) \<Rightarrow> string option \<Rightarrow> string option \<Rightarrow> bool"
  where
  "is_sealed_product lower category product_name =
     (let category_lower = lower (or_empty category);
          name_lower = lower (or_empty product_name)
      in if contains ''sealed'' category_lower then True
         else any_keyword sealed_keywords name_lower)"

text \<open>A row as \<open>read_csv\<close> yields it: texts stripped, numbers parsed.\<close>

record csv_row =
  c_portfolio_name :: string
  c_category :: string
  c_set_name :: string
  c_name :: string
  c_card_number :: string
  c_rarity :: string
  c_variance :: string
  c_grade :: string
  c_condition :: string
  c_cost_basis :: "real option"
  c_quantity :: int
  c_market_price :: "real option"
  c_price_override :: "real option"
  c_date_added :: string
  c_notes :: string

text \<open>\<open>s or None\<close> on a string, and \<open>x or y\<close> on optional numbers.\<close>

definition or_none :: "string \<Rightarrow> string option" where
  "or_none s = (if s = [] then None else Some s)"

definition py_or :: "real option \<Rightarrow> real option \<Rightarrow> real option" where
  "py_or x y = (if truthy x then x else y)"

text \<open>The keyword arguments of the call of \<open>upsert_item\<close> in \<open>import_csv\<close>.\<close>

definition import_args :: "bool \<Rightarrow> csv_row \<Rightarrow> upsert_args" where
  "import_args is_sealed row =
     \<lparr>a_name = c_name row,
      a_set_name = or_none (c_set_name row),
      a_card_number = or_none (c_card_number row),
      a_rarity = or_none (c_rarity row),
      a_variance = or_none (c_variance row),
      a_quantity = c_quantity row,
      a_cost_basis = c_cost_basis row,
      a_is_sealed = is_sealed,
      a_api_id = None,
      a_portfolio_name = or_none (c_portfolio_name row),
      a_grade = or_none (c_grade row),
      a_condition = or_none (c_condition row),
      a_notes = or_none (c_notes row),
      a_date_added = or_none (c_date_added row)\<rparr>"

record import_stats =
  st_total :: nat
  st_imported :: nat
  st_updated :: nat
  st_cards :: nat
  st_sealed :: nat
  st_errors :: "frag list list"

text \<open>
  One turn of the loop of \<open>import_csv\<close> on row number \<open>i\<close> (from 0). \<open>now_py\<close> is the
  reading of \<open>datetime.now()\<close> inside \<open>upsert_item\<close>, \<open>now_db\<close> that of
  \<open>CURRENT_TIMESTAMP\<close> inside \<open>record_price\<close>. Nothing in the \<open>try\<close> block raises in this
  model, so the \<open>except\<close> branch has no counterpart.
\<close>

definition import_row ::
  "(string \<Rightarrow> string) \<Rightarrow> timestamp \<Rightarrow> timestamp \<Rightarrow> nat \<Rightarrow> csv_row \<Rightarrow> import_stats \<times> db
     \<Rightarrow> import_stats \<times> db" where
  "import_row lower now_py now_db i row sd =
     (let (stats, d) = sd
      in if c_name row = []
         then (stats\<lparr>st_errors := st_errors stats @
                       [[Lit ''Row '', IntF (int i + 1), Lit '': Missing product name'']]\<rparr>, d)
         else
           (let is_sealed = is_sealed_product lower (Some (c_category row)) (Some (c_name row));
                (item_id, d) = upsert_item now_py (import_args is_sealed row) d;
                price = py_or (c_price_override row) (c_market_price row);
                d = (case price of
                       Some p \<Rightarrow> if p \<noteq> 0 \<and> p > 0 then record_price now_db item_id p d else d
                     | None \<Rightarrow> d);
                stats = stats\<lparr>st_imported := st_imported stats + 1\<rparr>;
                stats = (if is_sealed then stats\<lparr>st_sealed := st_sealed stats + 1\<rparr>
                         else stats\<lparr>st_cards := st_cards stats + 1\<rparr>)
            in (stats, d)))"

fun import_rows ::
  "(string \<Rightarrow> string) \<Rightarrow> (nat \<Rightarrow> timestamp) \<Rightarrow> (nat \<Rightarrow> timestamp) \<Rightarrow> nat \<Rightarrow> csv_row list
     \<Rightarrow> import_stats \<times> db \<Rightarrow> import_stats \<times> db" where
  "import_rows lower clock_py clock_db i [] sd = sd"
| "import_rows lower clock_py clock_db i (row # rows) sd =
     import_rows lower clock_py clock_db (Suc i) rows
       (import_row lower (clock_py i) (clock_db i) i row sd)"

text \<open>
  \<open>import_csv\<close> on the rows read from the file. \<open>init_db\<close> creates the tables only if
  they are missing, so it leaves an existing store as it is.
\<close>

definition import_csv ::
  "(string \<Rightarrow> string) \<Rightarrow> (nat \<Rightarrow> timestamp) \<Rightarrow> (nat \<Rightarrow> timestamp) \<Rightarrow> csv_row list \<Rightarrow> db
     \<Rightarrow> import_stats \<times> db" where
  "import_csv lower clock_py clock_db rows d =
     import_rows lower clock_py clock_db 0 rows
       (\<lparr>st_total = length rows, st_imported = 0, st_updated = 0, st_cards = 0,
         st_sealed = 0, st_errors = []\<rparr>, d)"

section \<open>Notions used to state the properties\<close>

text \<open>
  The definitions of this section follow the wording of the specification, not the
  source: the theorems compare them with the functions above, which follow the source.
\<close>

text \<open>The observations of an item, in the order of their recording.\<close>

definition item_prices :: "int \<Rightarrow> price_row list \<Rightarrow> price_row list" where
  "item_prices k ps = filter (\<lambda>p. p_item_id p = k) ps"

text \<open>A call is unrelated to an item when it records no price for it.\<close>

fun unrelated :: "int \<Rightarrow> db_op \<Rightarrow> bool" where
  "unrelated k (RecordPrice now i p) = (i \<noteq> k)"
| "unrelated k _ = True"

text \<open>An observation is old enough when it is more than 24 hours older than \<open>now\<close>.\<close>

definition old_enough :: "timestamp \<Rightarrow> price_row \<Rightarrow> bool" where
  "old_enough now p \<longleftrightarrow> p_timestamp p < now - 86400"

text \<open>
  The observations of an item that carry its latest timestamp among those old enough.
\<close>

definition latest_old :: "timestamp \<Rightarrow> db \<Rightarrow> item \<Rightarrow> price_row list" where
  "latest_old now d i =
     filter (\<lambda>p. p_item_id p = i_id i \<and> old_enough now p \<and>
                 (\<forall>q \<in> set (prices d). p_item_id q = i_id i \<and> old_enough now q
                      \<longrightarrow> p_timestamp q \<le> p_timestamp p))
            (prices d)"

text \<open>No two observations of one item carry the same timestamp.\<close>

definition no_ties :: "db \<Rightarrow> bool" where
  "no_ties d \<longleftrightarrow> distinct (map (\<lambda>p. (p_item_id p, p_timestamp p)) (prices d))"

text \<open>
  Quantity times price, summed over the items and, for each, over its latest old
  observations; absent (NULL) when no item has one.
\<close>

definition prev_sum :: "timestamp \<Rightarrow> db \<Rightarrow> real option" where
  "prev_sum now d =
     sql_sum (concat (map (\<lambda>i. map (\<lambda>p. of_int (i_quantity i) * p_price p) (latest_old now d i))
                          (items d)))"

text \<open>
  A row has a profit figure when its cost basis is present and positive and its
  current price is present and not zero.
\<close>

definition has_pnl :: "item_row \<Rightarrow> bool" where
  "has_pnl r \<longleftrightarrow>
     (\<exists>c p. i_cost_basis r = Some c \<and> c > 0 \<and> current_price r = Some p \<and> p \<noteq> 0)"

text \<open>The value of a row: current price times quantity, 0 without a current price.\<close>

definition item_value :: "item_row \<Rightarrow> real" where
  "item_value r = or_else (current_price r) 0 * of_int (i_quantity r)"

text \<open>The \<open>n\<close> largest of a list of numbers, in descending order.\<close>

definition largest :: "nat \<Rightarrow> real list \<Rightarrow> real list" where
  "largest n vs = take n (rev (sort vs))"








text \<open>
  A text of a CSV row matches a stored optional value when it is blank and the value
  is NULL, or it is not blank and the value is that text.
\<close>

definition blank_matches :: "string \<Rightarrow> string option \<Rightarrow> bool" where
  "blank_matches s v \<longleftrightarrow> (s = [] \<and> v = None) \<or> (s \<noteq> [] \<and> v = Some s)"

section \<open>Example data\<close>

text \<open>Concrete calls and stores on which the theorems below are exercised.\<close>

definition ex_args :: upsert_args where
  "ex_args = \<lparr>a_name = ''Pikachu'', a_set_name = Some ''Base'', a_card_number = None,
     a_rarity = None, a_variance = None, a_quantity = 1, a_cost_basis = None,
     a_is_sealed = False, a_api_id = None, a_portfolio_name = None, a_grade = None,
     a_condition = None, a_notes = None, a_date_added = None\<rparr>"

definition ex_d1 :: db where
  "ex_d1 = \<lparr>items = [new_row 10 ex_args 1], prices = [], next_item_id = 2, next_price_id = 1\<rparr>"

definition ex_d2 :: db where
  "ex_d2 = \<lparr>items = [update_row 20 (ex_args\<lparr>a_quantity := 4\<rparr>) (new_row 10 ex_args 1)],
     prices = [\<lparr>p_id = 1, p_item_id = 1, p_price = 3, p_timestamp = 15\<rparr>],
     next_item_id = 2, next_price_id = 2\<rparr>"

definition ex_api_db :: db where
  "ex_api_db = run [Upsert 10 (ex_args\<lparr>a_api_id := Some ''base1-58''\<rparr>)] init_db"

definition ex_tie_db :: db where
  "ex_tie_db = run [Upsert 0 ex_args, RecordPrice 0 1 10, RecordPrice 0 1 12] init_db"

definition ex_old_db :: db where
  "ex_old_db = run [Upsert 0 (ex_args\<lparr>a_quantity := 3\<rparr>), RecordPrice 100 1 10,
                    RecordPrice 199000 1 12] init_db"

definition ex_tie_history :: "db_op list" where
  "ex_tie_history = [Upsert 0 ex_args, RecordPrice 5 1 6]"

definition ex_two_items :: "db_op list" where
  "ex_two_items = [Upsert 0 ex_args, Upsert 0 (ex_args\<lparr>a_name := ''Eevee''\<rparr>), RecordPrice 2 1 6]"

definition ex_one_obs :: "db_op list" where
  "ex_one_obs = [Upsert 0 ex_args, RecordPrice 5 1 7]"

definition ex_row_a :: item_row where
  "ex_row_a = join_row (new_row 10 ex_args 1)
     (Some \<lparr>p_id = 1, p_item_id = 1, p_price = 10, p_timestamp = 5\<rparr>) None"

definition ex_row_b :: item_row where
  "ex_row_b = join_row
     (new_row 10 (ex_args\<lparr>a_name := ''Eevee'', a_quantity := 3, a_cost_basis := Some 5\<rparr>) 2)
     (Some \<lparr>p_id = 2, p_item_id = 2, p_price = 10, p_timestamp = 5\<rparr>) None"

definition ex_stats :: stats where
  "ex_stats = \<lparr>s_item_count = 2, s_total_quantity = Some 4, s_sealed_count = Some 0,
     s_card_count = Some 2, s_total_value = 40, s_total_cost = 15, s_prev_value = 40,
     s_daily_change = 0, s_daily_change_pct = 0, s_total_profit = Some 25\<rparr>"


definition ex_csv_row :: csv_row where
  "ex_csv_row = \<lparr>c_portfolio_name = ''Main'', c_category = ''Pokemon'', c_set_name = ''Base'',
     c_name = ''Pikachu'', c_card_number = [], c_rarity = [], c_variance = [], c_grade = [],
     c_condition = [], c_cost_basis = Some 5, c_quantity = 2, c_market_price = Some 10,
     c_price_override = Some 12, c_date_added = [], c_notes = []\<rparr>"

definition ex_import_stats :: import_stats where
  "ex_import_stats = \<lparr>st_total = 1, st_imported = 0, st_updated = 0, st_cards = 0,
     st_sealed = 0, st_errors = []\<rparr>"

definition ex_zero_rows :: "item_row list" where
  "ex_zero_rows =
     [join_row (new_row 10 (ex_args\<lparr>a_cost_basis := Some 0\<rparr>) 1)
        (Some \<lparr>p_id = 1, p_item_id = 1, p_price = 10, p_timestamp = 5\<rparr>) None,
      join_row (new_row 10 (ex_args\<lparr>a_name := ''Eevee'', a_cost_basis := Some 0\<rparr>) 2)
        (Some \<lparr>p_id = 2, p_item_id = 2, p_price = 10, p_timestamp = 5\<rparr>) None]"


section \<open>Properties of the item store\<close>

text \<open>
  Rows are never deleted and no call changes the id or the natural key of a row, so the
  list of (id, key) pairs only grows at its end; \<open>wf_db\<close> holds of every store that the
  four calls can build from an empty one.
\<close>

lemma key_match_iff: "key_match a it \<longleftrightarrow> item_key it = args_key a"
  by (auto simp: key_match_def item_key_def args_key_def)

lemma update_row_key [simp]: "item_key (update_row now a it) = item_key it"
  by (simp add: update_row_def item_key_def)

lemma update_row_id [simp]: "i_id (update_row now a it) = i_id it"
  by (simp add: update_row_def)

lemma new_row_key [simp]: "item_key (new_row now a n) = args_key a"
  by (simp add: new_row_def item_key_def args_key_def)

lemma new_row_id [simp]: "i_id (new_row now a n) = n"
  by (simp add: new_row_def)

lemma find_key_None: "find (key_match a) xs = None \<longleftrightarrow> args_key a \<notin> item_key ` set xs"
  by (force simp: find_None_iff key_match_iff image_iff)

lemma find_key_Some:
  "find (key_match a) xs = Some row \<Longrightarrow> row \<in> set xs \<and> item_key row = args_key a"
  by (auto simp: find_Some_iff key_match_iff)

lemma map_upd_ids:
  "map (\<lambda>it. (i_id it, item_key it)) (map (\<lambda>it. if i_id it = k then update_row now a it else it) xs)
     = map (\<lambda>it. (i_id it, item_key it)) xs"
  by (induction xs) auto

lemma upsert_hit:
  assumes "find (key_match a) (items d) = Some row"
  shows "fst (upsert_item now a d) = i_id row"
    and "id_keys (snd (upsert_item now a d)) = id_keys d"
    and "next_item_id (snd (upsert_item now a d)) = next_item_id d"
    and "items (snd (upsert_item now a d)) =
           map (\<lambda>it. if i_id it = i_id row then update_row now a it else it) (items d)"
  using assms by (simp_all add: upsert_item_def id_keys_def map_upd_ids Let_def)

lemma upsert_miss:
  assumes "find (key_match a) (items d) = None"
  shows "fst (upsert_item now a d) = next_item_id d"
    and "id_keys (snd (upsert_item now a d)) = id_keys d @ [(next_item_id d, args_key a)]"
    and "next_item_id (snd (upsert_item now a d)) = next_item_id d + 1"
  using assms by (simp_all add: upsert_item_def id_keys_def Let_def)

lemma wf_db_id_keys:
  "wf_db d \<longleftrightarrow> distinct (map fst (id_keys d)) \<and> (\<forall>p \<in> set (id_keys d). fst p < next_item_id d)
      \<and> distinct (map snd (id_keys d))"
  by (auto simp: wf_db_def id_keys_def comp_def)

lemma wf_init: "wf_db init_db"
  by (simp add: wf_db_def init_db_def)

lemma wf_upsert: "wf_db d \<Longrightarrow> wf_db (snd (upsert_item now a d))"
proof (cases "find (key_match a) (items d)")
  case None
  assume "wf_db d"
  moreover have "args_key a \<notin> snd ` set (id_keys d)"
    using None by (force simp: find_key_None id_keys_def)
  ultimately show ?thesis
    unfolding wf_db_id_keys upsert_miss[OF None] by force
next
  case (Some row)
  assume "wf_db d"
  then show ?thesis
    unfolding wf_db_id_keys upsert_hit[OF Some] by simp
qed

lemma id_keys_record_price [simp]: "id_keys (record_price now i p d) = id_keys d"
  by (simp add: id_keys_def record_price_def)

lemma next_record_price [simp]: "next_item_id (record_price now i p d) = next_item_id d"
  by (simp add: record_price_def)

lemma id_keys_update_api [simp]: "id_keys (update_item_api_id now i s d) = id_keys d"
  by (simp add: id_keys_def update_item_api_id_def item_key_def comp_def cong: if_cong)

lemma next_update_api [simp]: "next_item_id (update_item_api_id now i s d) = next_item_id d"
  by (simp add: update_item_api_id_def)

lemma id_keys_update_cost [simp]: "id_keys (snd (update_item_cost_basis now i c d)) = id_keys d"
  by (simp add: id_keys_def update_item_cost_basis_def item_key_def comp_def Let_def)

lemma next_update_cost [simp]:
  "next_item_id (snd (update_item_cost_basis now i c d)) = next_item_id d"
  by (simp add: update_item_cost_basis_def Let_def)

lemma wf_apply_op: "wf_db d \<Longrightarrow> wf_db (apply_op x d)"
  by (cases x) (simp_all add: wf_upsert, simp_all add: wf_db_id_keys)

lemma wf_run: "wf_db d \<Longrightarrow> wf_db (run xs d)"
  by (induction xs arbitrary: d) (simp_all add: wf_apply_op)

lemma id_keys_upsert_mono: "set (id_keys d) \<subseteq> set (id_keys (snd (upsert_item now a d)))"
  by (cases "find (key_match a) (items d)") (auto simp: upsert_hit upsert_miss)

lemma id_keys_apply_op_mono: "set (id_keys d) \<subseteq> set (id_keys (apply_op x d))"
  by (cases x) (simp_all add: id_keys_upsert_mono)

lemma id_keys_run_mono: "set (id_keys d) \<subseteq> set (id_keys (run xs d))"
proof (induction xs arbitrary: d)
  case Nil
  show ?case by simp
next
  case (Cons x xs)
  have "set (id_keys d) \<subseteq> set (id_keys (apply_op x d))" by (rule id_keys_apply_op_mono)
  also have "\<dots> \<subseteq> set (id_keys (run xs (apply_op x d)))" by (rule Cons.IH)
  finally show ?case by simp
qed

lemma upsert_returns_row: "(fst (upsert_item now a d), args_key a) \<in> set (id_keys (snd (upsert_item now a d)))"
proof (cases "find (key_match a) (items d)")
  case None
  then show ?thesis by (simp add: upsert_miss)
next
  case (Some row)
  from find_key_Some[OF Some] have "(i_id row, args_key a) \<in> set (id_keys d)"
    by (force simp: id_keys_def)
  then show ?thesis by (simp add: upsert_hit[OF Some])
qed

lemma filter_distinct_key:
  "distinct (map f xs) \<Longrightarrow> x \<in> set xs \<Longrightarrow> filter (\<lambda>y. f y = f x) xs = [x]"
proof (induction xs)
  case Nil
  then show ?case by simp
next
  case (Cons y ys)
  show ?case
  proof (cases "x = y")
    case True
    from Cons.prems have "\<forall>z \<in> set ys. f z \<noteq> f y" by (auto simp: image_iff)
    then have "filter (\<lambda>z. f z = f y) ys = []" by (simp add: filter_empty_conv)
    with True show ?thesis by simp
  next
    case False
    with Cons.prems have "x \<in> set ys" and "f y \<noteq> f x" by auto
    with Cons show ?thesis by simp
  qed
qed

lemma upsert_existing_row:
  assumes wf: "wf_db d" and it: "it \<in> set (items d)" "item_key it = args_key a"
  shows "fst (upsert_item now a d) = i_id it"
    and "length (items (snd (upsert_item now a d))) = length (items d)"
    and "rows_with_key (args_key a) (snd (upsert_item now a d)) = [update_row now a it]"
proof -
  from it have "find (key_match a) (items d) \<noteq> None"
    unfolding find_key_None by (metis imageI)
  then obtain row where row: "find (key_match a) (items d) = Some row" by blast
  from find_key_Some[OF row] have r: "row \<in> set (items d)" "item_key row = args_key a" by auto
  from wf have dk: "distinct (map item_key (items d))" by (simp add: wf_db_def)
  then have "inj_on item_key (set (items d))" by (simp add: distinct_map)
  with it r have eq: "row = it" by (metis inj_onD)
  let ?upd = "\<lambda>x. if i_id x = i_id row then update_row now a x else x"
  have keep: "item_key (?upd x) = item_key x" for x by simp
  show "fst (upsert_item now a d) = i_id it"
    using upsert_hit(1)[OF row] eq by simp
  show "length (items (snd (upsert_item now a d))) = length (items d)"
    by (simp add: upsert_hit(4)[OF row])
  have "rows_with_key (args_key a) (snd (upsert_item now a d))
          = map ?upd (filter (\<lambda>x. item_key x = item_key it) (items d))"
    unfolding rows_with_key_def upsert_hit(4)[OF row] filter_map comp_def keep
    by (simp add: it)
  also have "\<dots> = [?upd it]"
    by (simp only: filter_distinct_key[OF dk it(1)] list.map)
  finally show "rows_with_key (args_key a) (snd (upsert_item now a d)) = [update_row now a it]"
    by (simp add: eq)
qed

lemma upsert_existing:
  assumes wf: "wf_db d" and mem: "(k, args_key a) \<in> set (id_keys d)"
  shows "fst (upsert_item now a d) = k"
    and "length (items (snd (upsert_item now a d))) = length (items d)"
    and "\<exists>row. rows_with_key (args_key a) (snd (upsert_item now a d)) = [row] \<and>
            i_id row = k \<and> i_quantity row = a_quantity a"
proof -
  from mem obtain it where it: "it \<in> set (items d)" "i_id it = k" "item_key it = args_key a"
    by (auto simp: id_keys_def)
  note r = upsert_existing_row[OF wf it(1) it(3), of now]
  show "fst (upsert_item now a d) = k" using r(1) it(2) by simp
  show "length (items (snd (upsert_item now a d))) = length (items d)" by (rule r(2))
  have "i_quantity (update_row now a it) = a_quantity a" by (simp add: update_row_def)
  with r(3) it(2) show "\<exists>row. rows_with_key (args_key a) (snd (upsert_item now a d)) = [row] \<and>
            i_id row = k \<and> i_quantity row = a_quantity a" by simp
qed

text \<open>
  C1. Two calls of \<open>upsert_item\<close> with the same natural key, the first on any store
  built from the empty one and the second after any further calls: the second returns
  the id the first returned and adds no row, and afterwards exactly one row carries
  that key, with the quantity of the second call.
\<close>

theorem upsert_twice_single_row:
  assumes key: "args_key a2 = args_key a1"
    and first: "upsert_item t1 a1 (run history init_db) = (id1, d1)"
    and second: "upsert_item t2 a2 (run between d1) = (id2, d2)"
  shows "id2 = id1 \<and> length (items d2) = length (items (run between d1)) \<and>
         (\<exists>row. rows_with_key (args_key a1) d2 = [row] \<and> i_id row = id1 \<and>
                i_quantity row = a_quantity a2)"
proof -
  have wf1: "wf_db d1"
    using wf_upsert[OF wf_run[OF wf_init], of t1 a1 history] first by simp
  have "(id1, args_key a1) \<in> set (id_keys d1)"
    using upsert_returns_row[of t1 a1 "run history init_db"] first by simp
  then have mem: "(id1, args_key a2) \<in> set (id_keys (run between d1))"
    using id_keys_run_mono[of d1 between] key by auto
  from upsert_existing[OF wf_run[OF wf1] mem, of t2] second key
  show ?thesis by simp
qed

theorem upsert_twice_single_row_witness:
  "args_key (ex_args\<lparr>a_quantity := 4\<rparr>) = args_key ex_args \<and>
   upsert_item 10 ex_args (run [] init_db) = (1, ex_d1) \<and>
   upsert_item 20 (ex_args\<lparr>a_quantity := 4\<rparr>) (run [RecordPrice 15 1 3] ex_d1) = (1, ex_d2) \<and>
   (\<exists>row. rows_with_key (args_key ex_args) ex_d2 = [row] \<and> i_id row = 1 \<and> i_quantity row = 4)"
proof -
  have k: "args_key (ex_args\<lparr>a_quantity := 4\<rparr>) = args_key ex_args"
    by (simp add: args_key_def)
  have f: "upsert_item 10 ex_args (run [] init_db) = (1, ex_d1)"
    by (simp add: upsert_item_def init_db_def ex_d1_def)
  have s: "upsert_item 20 (ex_args\<lparr>a_quantity := 4\<rparr>) (run [RecordPrice 15 1 3] ex_d1) = (1, ex_d2)"
    by (simp add: upsert_item_def record_price_def key_match_def new_row_def ex_args_def
        ex_d1_def ex_d2_def)
  from upsert_twice_single_row [OF k f s] k f s show ?thesis
    by simp
qed

text \<open>
  C4, as stated, fails: on a row whose \<open>api_id\<close> is set, an upsert with the same
  natural key that supplies another \<open>api_id\<close> replaces the stored one
  (\<open>COALESCE(?, api_id)\<close> prefers the new value).
\<close>

theorem upsert_api_id_overwritten_counterexample:
  "map i_api_id (items ex_api_db) = [Some ''base1-58''] \<and>
   map item_key (items ex_api_db) = [args_key (ex_args\<lparr>a_api_id := Some ''xy1-42''\<rparr>)] \<and>
   map i_api_id (items (snd (upsert_item 20 (ex_args\<lparr>a_api_id := Some ''xy1-42''\<rparr>) ex_api_db)))
     = [Some ''xy1-42'']"
  by (simp add: ex_api_db_def upsert_item_def init_db_def new_row_def update_row_def
      key_match_def item_key_def args_key_def coalesce_def ex_args_def)

text \<open>
  C4, amended. An upsert that matches the natural key of a row stores
  \<open>COALESCE(new, old)\<close> as the \<open>api_id\<close>: the stored value stays when the call supplies
  none and is replaced by the supplied one otherwise. The call that \<open>import_csv\<close> makes
  supplies none, so a re-import never changes a stored \<open>api_id\<close>.
\<close>

theorem upsert_api_id_coalesce:
  assumes "it \<in> set (items (run history init_db))" and "item_key it = args_key a"
  shows "(\<exists>row. rows_with_key (args_key a) (snd (upsert_item now a (run history init_db))) = [row] \<and>
            i_id row = i_id it \<and>
            i_api_id row = (case a_api_id a of None \<Rightarrow> i_api_id it | Some s \<Rightarrow> Some s)) \<and>
         a_api_id (import_args is_sealed row) = None"
proof -
  have "i_api_id (update_row now a it) = (case a_api_id a of None \<Rightarrow> i_api_id it | Some s \<Rightarrow> Some s)"
    by (simp add: update_row_def coalesce_def)
  with upsert_existing_row(3)[OF wf_run[OF wf_init] assms, of now]
  show ?thesis by (simp add: import_args_def)
qed

theorem upsert_api_id_coalesce_witness:
  "new_row 10 (ex_args\<lparr>a_api_id := Some ''base1-58''\<rparr>) 1 \<in> set (items (run [Upsert 10 (ex_args\<lparr>a_api_id := Some ''base1-58''\<rparr>)] init_db)) \<and>
   item_key (new_row 10 (ex_args\<lparr>a_api_id := Some ''base1-58''\<rparr>) 1) = args_key ex_args \<and>
   (\<exists>row. rows_with_key (args_key ex_args)
             (snd (upsert_item 20 ex_args (run [Upsert 10 (ex_args\<lparr>a_api_id := Some ''base1-58''\<rparr>)] init_db))) = [row] \<and>
          i_id row = 1 \<and> i_api_id row = Some ''base1-58'')"
proof -
  have m: "new_row 10 (ex_args\<lparr>a_api_id := Some ''base1-58''\<rparr>) 1 \<in> set (items (run [Upsert 10 (ex_args\<lparr>a_api_id := Some ''base1-58''\<rparr>)] init_db))"
    by (simp add: upsert_item_def init_db_def)
  have k: "item_key (new_row 10 (ex_args\<lparr>a_api_id := Some ''base1-58''\<rparr>) 1) = args_key ex_args"
    by (simp add: args_key_def)
  from upsert_api_id_coalesce [OF m k, of 20] m k show ?thesis
    by (simp add: ex_args_def new_row_def)
qed

section \<open>Properties of the price series\<close>

lemma sql_max_None [simp]: "sql_max xs = None \<longleftrightarrow> xs = []"
  by (induction xs) (auto split: option.splits)

lemma sql_max_Some: "sql_max xs = Some m \<longleftrightarrow> m \<in> set xs \<and> (\<forall>x \<in> set xs. x \<le> m)"
proof (induction xs arbitrary: m)
  case Nil
  show ?case by simp
next
  case (Cons x xs)
  show ?case
  proof (cases "sql_max xs")
    case None
    then show ?thesis by auto
  next
    case (Some k)
    with Cons[of k] have k: "k \<in> set xs" "\<forall>y \<in> set xs. y \<le> k" by auto
    show ?thesis using Some k by (auto simp: max_def intro: antisym)
  qed
qed

lemma concat_map_if: "concat (map (\<lambda>p. if P p then [g p] else []) ps) = map g (filter P ps)"
  by (induction ps) auto

lemma concat_map_if2:
  "concat (map (\<lambda>p. if A p then if B p then [g p] else [] else []) ps)
     = map g (filter (\<lambda>p. A p \<and> B p) ps)"
  by (induction ps) auto

lemma latest_cond:
  assumes "p \<in> set ps"
  shows "is_latest ps i p \<longleftrightarrow>
           p_item_id p = i_id i \<and> (\<forall>q \<in> set (item_prices (i_id i) ps). p_timestamp q \<le> p_timestamp p)"
  unfolding is_latest_def concat_map_if item_prices_def using assms
  by (auto simp: eq_commute[of "Some _"] sql_max_Some)

lemma previous_cond:
  assumes "p \<in> set ps"
  shows "is_previous ps i (Some c) p \<longleftrightarrow>
           p_item_id p = i_id i \<and> p_timestamp p < p_timestamp c \<and>
           (\<forall>q \<in> set (item_prices (i_id i) ps).
               p_timestamp q < p_timestamp c \<longrightarrow> p_timestamp q \<le> p_timestamp p)"
  unfolding is_previous_def concat_map_if2 item_prices_def using assms
  by (auto simp: eq_commute[of "Some _"] sql_max_Some)

lemma filter_latest:
  "filter (is_latest ps i) ps =
     filter (\<lambda>p. \<forall>q \<in> set (item_prices (i_id i) ps). p_timestamp q \<le> p_timestamp p)
            (item_prices (i_id i) ps)"
proof -
  have "filter (is_latest ps i) ps =
        filter (\<lambda>p. p_item_id p = i_id i \<and>
                  (\<forall>q \<in> set (item_prices (i_id i) ps). p_timestamp q \<le> p_timestamp p)) ps"
    by (rule filter_cong[OF refl]) (rule latest_cond)
  then show ?thesis by (simp add: item_prices_def conj_commute)
qed

lemma filter_previous:
  "filter (is_previous ps i (Some c)) ps =
     filter (\<lambda>p. p_timestamp p < p_timestamp c \<and>
                 (\<forall>q \<in> set (item_prices (i_id i) ps).
                     p_timestamp q < p_timestamp c \<longrightarrow> p_timestamp q \<le> p_timestamp p))
            (item_prices (i_id i) ps)"
proof -
  have "filter (is_previous ps i (Some c)) ps =
        filter (\<lambda>p. p_item_id p = i_id i \<and> (p_timestamp p < p_timestamp c \<and>
           (\<forall>q \<in> set (item_prices (i_id i) ps).
               p_timestamp q < p_timestamp c \<longrightarrow> p_timestamp q \<le> p_timestamp p))) ps"
    by (rule filter_cong[OF refl]) (rule previous_cond)
  then show ?thesis by (simp add: item_prices_def conj_commute)
qed

lemma item_rows_two_latest:
  assumes ips: "item_prices (i_id i) ps = older @ [o1, o2]"
    and old: "\<forall>p \<in> set older. p_timestamp p < p_timestamp o1"
    and lt: "p_timestamp o1 < p_timestamp o2"
  shows "item_rows ps i = [join_row i (Some o2) (Some o1)]"
proof -
  have l: "filter (is_latest ps i) ps = [o2]"
    unfolding filter_latest ips using old lt by (auto simp: filter_empty_conv)
  have p: "filter (is_previous ps i (Some o2)) ps = [o1]"
    unfolding filter_previous ips using old lt by (auto simp: filter_empty_conv)
  show ?thesis
    by (simp add: item_rows_def left_join_def l p)
qed

lemma item_rows_single:
  assumes ips: "item_prices (i_id i) ps = [p]"
  shows "item_rows ps i = [join_row i (Some p) None]"
proof -
  have l: "filter (is_latest ps i) ps = [p]"
    unfolding filter_latest ips by simp
  have pr: "filter (is_previous ps i (Some p)) ps = []"
    unfolding filter_previous ips by simp
  show ?thesis
    by (simp add: item_rows_def left_join_def l pr)
qed

lemma join_row_id [simp]: "i_id (join_row i p1 p2) = i_id i"
  by (simp add: join_row_def item.defs)

lemma join_row_prices [simp]:
  "current_price (join_row i p1 p2) = map_option p_price p1"
  "previous_price (join_row i p1 p2) = map_option p_price p2"
  by (simp_all add: join_row_def item.defs)

lemma item_rows_id: "r \<in> set (item_rows ps i) \<Longrightarrow> i_id r = i_id i"
  by (auto simp: item_rows_def)

lemma filter_rows_by_id:
  "filter (\<lambda>r. i_id r = k) (concat (map (item_rows ps) its))
     = concat (map (item_rows ps) (filter (\<lambda>i. i_id i = k) its))"
proof (induction its)
  case Nil
  show ?case by simp
next
  case (Cons i its)
  have "filter (\<lambda>r. i_id r = k) (item_rows ps i) = (if i_id i = k then item_rows ps i else [])"
    by (auto simp: filter_empty_conv filter_id_conv dest: item_rows_id)
  with Cons show ?case by simp
qed

lemma latest_and_previous_unique:
  assumes wf: "wf_db d" and it: "it \<in> set (items d)"
  shows "latest_and_previous (i_id it) d =
           map (\<lambda>r. (current_price r, previous_price r)) (sort_key i_name (item_rows (prices d) it))"
proof -
  from wf have "distinct (map i_id (items d))" by (simp add: wf_db_def)
  from filter_distinct_key[OF this it]
  have "filter (\<lambda>i. i_id i = i_id it) (items d) = [it]" .
  then show ?thesis
    by (simp add: latest_and_previous_def get_all_items_def filter_sort filter_rows_by_id)
qed

lemma prices_upsert [simp]: "prices (snd (upsert_item now a d)) = prices d"
  by (simp add: upsert_item_def Let_def split: option.splits)

lemma prices_update_api [simp]: "prices (update_item_api_id now i s d) = prices d"
  by (simp add: update_item_api_id_def)

lemma prices_update_cost [simp]: "prices (snd (update_item_cost_basis now i c d)) = prices d"
  by (simp add: update_item_cost_basis_def Let_def)

lemma item_prices_record:
  "item_prices k (prices (record_price now i p d)) =
     item_prices k (prices d) @
       (if i = k then [\<lparr>p_id = next_price_id d, p_item_id = i, p_price = p, p_timestamp = now\<rparr>]
        else [])"
  by (simp add: item_prices_def record_price_def)

lemma item_prices_apply_unrelated:
  "unrelated k x \<Longrightarrow> item_prices k (prices (apply_op x d)) = item_prices k (prices d)"
  by (cases x) (simp_all add: item_prices_record)

lemma item_prices_run_unrelated:
  "\<forall>x \<in> set xs. unrelated k x \<Longrightarrow> item_prices k (prices (run xs d)) = item_prices k (prices d)"
  by (induction xs arbitrary: d) (simp_all add: item_prices_apply_unrelated)

lemma ids_run_mono: "i_id ` set (items d) \<subseteq> i_id ` set (items (run xs d))"
proof -
  have "fst ` set (id_keys d) \<subseteq> fst ` set (id_keys (run xs d))"
    using id_keys_run_mono[of d xs] by blast
  then show ?thesis by (simp add: id_keys_def image_image)
qed

lemma wf_record_price: "wf_db d \<Longrightarrow> wf_db (record_price now i p d)"
  using wf_apply_op[of d "RecordPrice now i p"] by simp

lemma items_record_price [simp]: "items (record_price now i p d) = items d"
  by (simp add: record_price_def)

lemma ex_c5_db:
  "record_price 9 1 8 (record_price 5 1 7 (run ex_tie_history init_db)) =
     \<lparr>items = [new_row 0 ex_args 1],
      prices = [\<lparr>p_id = 1, p_item_id = 1, p_price = 6, p_timestamp = 5\<rparr>,
                \<lparr>p_id = 2, p_item_id = 1, p_price = 7, p_timestamp = 5\<rparr>,
                \<lparr>p_id = 3, p_item_id = 1, p_price = 8, p_timestamp = 9\<rparr>],
      next_item_id = 2, next_price_id = 4\<rparr>"
  by (simp add: ex_tie_history_def upsert_item_def record_price_def init_db_def)

text \<open>
  C5. The code departs from the claim when an earlier observation of the item shares
  the timestamp of \<open>P1\<close>. On the store with one item and the observations 6 and then
  \<open>P1 = 7\<close> in second 5 and \<open>P2 = 8\<close> in second 9, \<open>get_all_items\<close> lists the item twice,
  and the lookup yields the pairs (8, 6) and (8, 7) where the claim has the single pair
  (8, 7): the join on \<open>timestamp = MAX(timestamp)\<close> matches every observation of the tied
  second.
\<close>

theorem latest_previous_lists_tie_twice:
  "length (items (record_price 9 1 8 (record_price 5 1 7 (run ex_tie_history init_db)))) = 1 \<and>
   length (get_all_items (record_price 9 1 8 (record_price 5 1 7 (run ex_tie_history init_db))))
     = 2 \<and>
   latest_and_previous 1 (record_price 9 1 8 (record_price 5 1 7 (run ex_tie_history init_db)))
     = [(Some 8, Some 6), (Some 8, Some 7)]"
  unfolding ex_c5_db
  by (simp add: latest_and_previous_def get_all_items_def item_rows_def left_join_def
      is_latest_def is_previous_def join_row_def item.defs new_row_def)

text \<open>
  Away from such ties the lookup is as described. On a store built from the empty one,
  let every observation the item already has be strictly older than \<open>t1\<close>. After
  recording \<open>P1\<close> at \<open>t1\<close> and \<open>P2\<close> at a strictly later \<open>t2\<close>, with any calls in between and
  afterwards that record no price for this item, the lookup yields exactly one pair,
  current \<open>P2\<close> and previous \<open>P1\<close>. For an item with exactly one observation it yields
  that observation and no previous one.
\<close>

lemma latest_then_previous:
  assumes exists: "k \<in> i_id ` set (items (run history init_db))"
    and older: "\<forall>p \<in> set (prices (run history init_db)). p_item_id p = k \<longrightarrow> p_timestamp p < t1"
    and later: "t1 < t2"
    and others1: "\<forall>x \<in> set between. unrelated k x"
    and others2: "\<forall>x \<in> set after. unrelated k x"
    and one: "k' \<in> i_id ` set (items (run hist' init_db))"
             "item_prices k' (prices (run hist' init_db)) = [obs]"
  shows "latest_and_previous k
           (run after (record_price t2 k P2 (run between (record_price t1 k P1 (run history init_db)))))
           = [(Some P2, Some P1)] \<and>
         latest_and_previous k' (run hist' init_db) = [(Some (p_price obs), None)]"
proof -
  let ?init = "run history init_db"
  let ?fst = "record_price t1 k P1 ?init"
  let ?mid = "run between ?fst"
  let ?snd = "record_price t2 k P2 ?mid"
  let ?fin = "run after ?snd"
  let ?obsA = "\<lparr>p_id = next_price_id ?init, p_item_id = k, p_price = P1, p_timestamp = t1\<rparr>"
  let ?obsB = "\<lparr>p_id = next_price_id ?mid, p_item_id = k, p_price = P2, p_timestamp = t2\<rparr>"
  have wf: "wf_db ?fin"
    by (intro wf_run wf_record_price wf_init)
  have "i_id ` set (items ?init) \<subseteq> i_id ` set (items ?fin)"
    using ids_run_mono[of ?fst between] ids_run_mono[of ?snd after]
    by (simp only: items_record_price)
  with exists have "k \<in> i_id ` set (items ?fin)" by (rule rev_subsetD)
  then obtain it where it: "it \<in> set (items ?fin)" "i_id it = k" by (auto simp: image_iff)
  have ips: "item_prices (i_id it) (prices ?fin) = item_prices k (prices ?init) @ [?obsA, ?obsB]"
    by (simp add: it item_prices_run_unrelated[OF others2] item_prices_run_unrelated[OF others1]
        item_prices_record)
  have old: "\<forall>p \<in> set (item_prices k (prices ?init)). p_timestamp p < p_timestamp ?obsA"
    using older by (simp add: item_prices_def)
  have "item_rows (prices ?fin) it = [join_row it (Some ?obsB) (Some ?obsA)]"
    by (rule item_rows_two_latest[OF ips old]) (simp add: later)
  with latest_and_previous_unique[OF wf it(1)] it(2)
  have first: "latest_and_previous k ?fin = [(Some P2, Some P1)]" by simp
  from one(1) obtain it' where it': "it' \<in> set (items (run hist' init_db))" "i_id it' = k'" by auto
  have "item_rows (prices (run hist' init_db)) it' = [join_row it' (Some obs) None]"
    by (rule item_rows_single) (simp add: it' one(2))
  with latest_and_previous_unique[OF wf_run[OF wf_init] it'(1)] it'(2)
  have "latest_and_previous k' (run hist' init_db) = [(Some (p_price obs), None)]" by simp
  with first show ?thesis by simp
qed

lemma ex_two_items_run:
  "run ex_two_items init_db =
     \<lparr>items = [new_row 0 ex_args 1, new_row 0 (ex_args\<lparr>a_name := ''Eevee''\<rparr>) 2],
      prices = [\<lparr>p_id = 1, p_item_id = 1, p_price = 6, p_timestamp = 2\<rparr>],
      next_item_id = 3, next_price_id = 2\<rparr>"
  by (simp add: ex_two_items_def upsert_item_def record_price_def init_db_def key_match_def
      new_row_def ex_args_def)

lemma ex_one_obs_run:
  "run ex_one_obs init_db =
     \<lparr>items = [new_row 0 ex_args 1],
      prices = [\<lparr>p_id = 1, p_item_id = 1, p_price = 7, p_timestamp = 5\<rparr>],
      next_item_id = 2, next_price_id = 2\<rparr>"
  by (simp add: ex_one_obs_def upsert_item_def record_price_def init_db_def)

lemma latest_then_previous_example:
  "1 \<in> i_id ` set (items (run ex_two_items init_db)) \<and>
   map (\<lambda>p. (p_item_id p, p_timestamp p)) (prices (run ex_two_items init_db)) = [(1, 2)] \<and>
   (5 :: int) < 9 \<and>
   list_all (unrelated 1) [RecordPrice 5 2 100] \<and>
   list_all (unrelated 1) [RecordPrice 9 2 50] \<and>
   latest_and_previous 1
     (run [RecordPrice 9 2 50]
        (record_price 9 1 8 (run [RecordPrice 5 2 100]
           (record_price 5 1 7 (run ex_two_items init_db)))))
     = [(Some 8, Some 7)] \<and>
   item_prices 1 (prices (run ex_one_obs init_db))
     = [\<lparr>p_id = 1, p_item_id = 1, p_price = 7, p_timestamp = 5\<rparr>] \<and>
   latest_and_previous 1 (run ex_one_obs init_db) = [(Some 7, None)]"
proof -
  have e: "1 \<in> i_id ` set (items (run ex_two_items init_db))"
    by (simp add: ex_two_items_run)
  have o: "\<forall>p \<in> set (prices (run ex_two_items init_db)). p_item_id p = 1 \<longrightarrow> p_timestamp p < 5"
    by (simp add: ex_two_items_run)
  have l: "(5 :: int) < 9" by simp
  have u1: "\<forall>x \<in> set [RecordPrice 5 2 100]. unrelated 1 x" by simp
  have u2: "\<forall>x \<in> set [RecordPrice 9 2 50]. unrelated 1 x" by simp
  have e': "1 \<in> i_id ` set (items (run ex_one_obs init_db))"
    by (simp add: ex_one_obs_run)
  have p': "item_prices 1 (prices (run ex_one_obs init_db))
     = [\<lparr>p_id = 1, p_item_id = 1, p_price = 7, p_timestamp = 5\<rparr>]"
    by (simp add: ex_one_obs_run item_prices_def)
  from latest_then_previous [OF e o l u1 u2 e' p', of 8 7] e p'
  show ?thesis by (simp add: ex_two_items_run)
qed

section \<open>Properties of the summary statistics\<close>

lemma prev_cond:
  assumes "p \<in> set ps"
  shows "(i_id i = p_item_id p \<and>
          Some (p_timestamp p) =
            sql_max (concat (map (\<lambda>q. if p_item_id q = i_id i
                                        then if p_timestamp q < c then [p_timestamp q] else []
                                        else []) ps)))
         \<longleftrightarrow> (p_item_id p = i_id i \<and> p_timestamp p < c \<and>
              (\<forall>q \<in> set ps. p_item_id q = i_id i \<and> p_timestamp q < c
                    \<longrightarrow> p_timestamp q \<le> p_timestamp p))"
proof -
  have eq: "concat (map (\<lambda>q. if p_item_id q = i_id i
                                        then if p_timestamp q < c then [p_timestamp q] else []
                                        else []) ps)
        = map p_timestamp (filter (\<lambda>q. p_item_id q = i_id i \<and> p_timestamp q < c) ps)"
    by (induction ps) auto
  show ?thesis
    unfolding eq using assms
    by (auto simp: sql_max_Some[of _ "p_timestamp p", symmetric] eq_commute[of "Some _"]
             simp: sql_max_Some)
qed

lemma prev_value_query_latest_old:
  "prev_value_query now d =
     sql_sum (concat (map (\<lambda>i. map (\<lambda>p. of_int (i_quantity i) * p_price p) (latest_old now d i))
                          (items d)))"
proof -
  have "filter (\<lambda>p. i_id i = p_item_id p \<and> Some (p_timestamp p) =
                      sql_max (concat (map (\<lambda>q. if p_item_id q = i_id i
                                        then if p_timestamp q < now - 86400 then [p_timestamp q] else []
                                        else []) (prices d)))) (prices d)
        = latest_old now d i" for i
    unfolding latest_old_def old_enough_def
    by (rule filter_cong[OF refl]) (rule prev_cond)
  then show ?thesis
    unfolding prev_value_query_def concat_map_if2 by simp
qed

lemma get_summary_stats_fields:
  "\<exists>st. get_summary_stats now d = Some st \<and>
     s_total_value st = or_else (total_value_query d) 0 \<and>
     s_total_cost st = or_else (total_cost_query d) 0 \<and>
     s_prev_value st = or_else (prev_value_query now d) (s_total_value st) \<and>
     s_daily_change st = s_total_value st - s_prev_value st \<and>
     s_daily_change_pct st =
       (if s_prev_value st = 0 then 0
        else (s_total_value st - s_prev_value st) / s_prev_value st * 100) \<and>
     s_total_profit st =
       (if s_total_cost st = 0 then None else Some (s_total_value st - s_total_cost st))"
  by (cases "total_value_query d"; cases "total_cost_query d"; cases "prev_value_query now d")
     (simp_all add: get_summary_stats_def Let_def py_div_def truthy_def or_else_def)

lemma latest_old_same_key:
  assumes "p \<in> set (latest_old now d i)" "q \<in> set (latest_old now d i)"
  shows "p_item_id p = p_item_id q \<and> p_timestamp p = p_timestamp q"
proof -
  from assms have p: "p \<in> set (prices d)" "p_item_id p = i_id i" "old_enough now p"
    and pm: "\<forall>r \<in> set (prices d). p_item_id r = i_id i \<and> old_enough now r \<longrightarrow> p_timestamp r \<le> p_timestamp p"
    and q: "q \<in> set (prices d)" "p_item_id q = i_id i" "old_enough now q"
    and qm: "\<forall>r \<in> set (prices d). p_item_id r = i_id i \<and> old_enough now r \<longrightarrow> p_timestamp r \<le> p_timestamp q"
    by (simp_all add: latest_old_def)
  from pm q have "p_timestamp q \<le> p_timestamp p" by blast
  moreover from qm p have "p_timestamp p \<le> p_timestamp q" by blast
  ultimately show ?thesis using p q by simp
qed

lemma distinct_all_equal_short:
  assumes "distinct xs" and "\<forall>x \<in> set xs. \<forall>y \<in> set xs. x = y"
  shows "length xs \<le> 1"
proof (cases xs)
  case Nil
  then show ?thesis by simp
next
  case outer: (Cons a as)
  show ?thesis
  proof (cases as)
    case Nil
    with outer show ?thesis by simp
  next
    case (Cons b bs)
    from assms(1) outer Cons have "a \<noteq> b" by simp
    moreover have "a \<in> set xs" "b \<in> set xs" using outer Cons by simp_all
    with assms(2) have "a = b" by blast
    ultimately show ?thesis by blast
  qed
qed

lemma latest_old_no_ties:
  assumes "no_ties d"
  shows "length (latest_old now d i) \<le> 1"
proof -
  let ?key = "\<lambda>p. (p_item_id p, p_timestamp p)"
  have d: "distinct (map ?key (latest_old now d i))"
    using assms unfolding no_ties_def latest_old_def by (rule distinct_map_filter)
  have "\<forall>x \<in> set (map ?key (latest_old now d i)). \<forall>y \<in> set (map ?key (latest_old now d i)). x = y"
  proof (intro ballI)
    fix x y
    assume "x \<in> set (map ?key (latest_old now d i))" "y \<in> set (map ?key (latest_old now d i))"
    then obtain p q where "p \<in> set (latest_old now d i)" "q \<in> set (latest_old now d i)"
      "x = ?key p" "y = ?key q" by auto
    with latest_old_same_key[of p now d i q] show "x = y" by simp
  qed
  with d have "length (map ?key (latest_old now d i)) \<le> 1" by (rule distinct_all_equal_short)
  then show ?thesis by simp
qed

lemma ex_tie_db_eq:
  "ex_tie_db = \<lparr>items = [new_row 0 ex_args 1],
     prices = [\<lparr>p_id = 1, p_item_id = 1, p_price = 10, p_timestamp = 0\<rparr>,
               \<lparr>p_id = 2, p_item_id = 1, p_price = 12, p_timestamp = 0\<rparr>],
     next_item_id = 2, next_price_id = 3\<rparr>"
  by (simp add: ex_tie_db_def upsert_item_def record_price_def init_db_def)

lemma ex_tie_prev: "prev_value_query 200000 ex_tie_db = Some 22"
  by (simp add: ex_tie_db_eq prev_value_query_def sql_sum_def new_row_def ex_args_def)

lemma ex_tie_total: "total_value_query ex_tie_db = Some 22"
  by (simp add: ex_tie_db_eq total_value_query_def sql_sum_def new_row_def ex_args_def)

text \<open>
  C3. The code departs from the claim when two observations of an item share its
  latest timestamp more than 24 hours old. One item of quantity 1 with the prices 10
  and 12 recorded in the same second has a \<open>prev_value\<close> of 22, the sum of both, where
  the one latest observation of the claim gives 10 or 12: the join on
  \<open>timestamp = MAX(timestamp)\<close> matches both rows. \<open>total_value\<close> counts the item twice in
  the same way.
\<close>

theorem prev_value_counts_tie_twice:
  "map (\<lambda>i. (i_id i, i_quantity i)) (items ex_tie_db) = [(1, 1)] \<and>
   map (\<lambda>p. (p_item_id p, p_timestamp p, p_price p)) (prices ex_tie_db) = [(1, 0, 10), (1, 0, 12)] \<and>
   map_option s_prev_value (get_summary_stats 200000 ex_tie_db) = Some 22 \<and>
   map_option s_total_value (get_summary_stats 200000 ex_tie_db) = Some 22"
proof -
  have "map (\<lambda>i. (i_id i, i_quantity i)) (items ex_tie_db) = [(1, 1)]"
    by (simp add: ex_tie_db_eq new_row_def ex_args_def)
  moreover have "map (\<lambda>p. (p_item_id p, p_timestamp p, p_price p)) (prices ex_tie_db)
      = [(1, 0, 10), (1, 0, 12)]"
    by (simp add: ex_tie_db_eq)
  moreover from get_summary_stats_fields[of 200000 ex_tie_db]
  have "map_option s_prev_value (get_summary_stats 200000 ex_tie_db) = Some 22 \<and>
        map_option s_total_value (get_summary_stats 200000 ex_tie_db) = Some 22"
    by (auto simp: ex_tie_prev ex_tie_total or_else_def)
  ultimately show ?thesis by simp
qed

text \<open>
  The rest is as described, on every store. \<open>get_summary_stats\<close> always returns (no
  division by zero). Its \<open>prev_value\<close> is the sum of quantity times price over the
  observations that carry, per item, the latest timestamp more than 24 hours old, items
  without one left out; without ties that is one observation per item. When the sum is
  absent or zero, \<open>prev_value\<close> is \<open>total_value\<close> and \<open>daily_change\<close> is 0; and
  \<open>daily_change_pct\<close> is 0 whenever \<open>prev_value\<close> is 0.
\<close>

lemma prev_value_fallback:
  "\<exists>st. get_summary_stats now d = Some st \<and>
     s_prev_value st =
       (case prev_sum now d of None \<Rightarrow> s_total_value st
        | Some v \<Rightarrow> if v = 0 then s_total_value st else v) \<and>
     (no_ties d \<longrightarrow> (\<forall>i \<in> set (items d). length (latest_old now d i) \<le> 1)) \<and>
     (prev_sum now d = None \<or> prev_sum now d = Some 0
        \<longrightarrow> s_prev_value st = s_total_value st \<and> s_daily_change st = 0) \<and>
     (s_prev_value st = 0 \<longrightarrow> s_daily_change_pct st = 0)"
proof -
  from get_summary_stats_fields[of now d] obtain st where
    st: "get_summary_stats now d = Some st"
      "s_prev_value st = or_else (prev_value_query now d) (s_total_value st)"
      "s_daily_change st = s_total_value st - s_prev_value st"
      "s_daily_change_pct st =
       (if s_prev_value st = 0 then 0
        else (s_total_value st - s_prev_value st) / s_prev_value st * 100)"
    by blast
  have q: "prev_value_query now d = prev_sum now d"
    by (simp add: prev_value_query_latest_old prev_sum_def)
  have a: "s_prev_value st =
       (case prev_sum now d of None \<Rightarrow> s_total_value st
        | Some v \<Rightarrow> if v = 0 then s_total_value st else v)"
    using st(2) by (simp add: q or_else_def split: option.splits)
  have b: "no_ties d \<longrightarrow> (\<forall>i \<in> set (items d). length (latest_old now d i) \<le> 1)"
    using latest_old_no_ties[of d now] by blast
  have c: "prev_sum now d = None \<or> prev_sum now d = Some 0
        \<longrightarrow> s_prev_value st = s_total_value st \<and> s_daily_change st = 0"
    using a st(3) by auto
  have e: "s_prev_value st = 0 \<longrightarrow> s_daily_change_pct st = 0"
    using st(4) by simp
  from st(1) a b c e show ?thesis by blast
qed

lemma ex_old_db_eq:
  "ex_old_db = \<lparr>items = [new_row 0 (ex_args\<lparr>a_quantity := 3\<rparr>) 1],
     prices = [\<lparr>p_id = 1, p_item_id = 1, p_price = 10, p_timestamp = 100\<rparr>,
               \<lparr>p_id = 2, p_item_id = 1, p_price = 12, p_timestamp = 199000\<rparr>],
     next_item_id = 2, next_price_id = 3\<rparr>"
  by (simp add: ex_old_db_def upsert_item_def record_price_def init_db_def)

lemma prev_value_fallback_example:
  "no_ties ex_old_db \<and> prev_sum 200000 ex_old_db = Some 30 \<and>
   map_option s_prev_value (get_summary_stats 200000 ex_old_db) = Some 30 \<and>
   prev_sum 200000 ex_d1 = None \<and>
   map_option s_prev_value (get_summary_stats 200000 ex_d1) = Some 0 \<and>
   map_option s_daily_change (get_summary_stats 200000 ex_d1) = Some 0 \<and>
   map_option s_daily_change_pct (get_summary_stats 200000 ex_d1) = Some 0"
proof -
  have nt: "no_ties ex_old_db"
    by (simp add: no_ties_def ex_old_db_eq)
  have ps: "prev_sum 200000 ex_old_db = Some 30"
    by (simp add: prev_sum_def latest_old_def old_enough_def sql_sum_def ex_old_db_eq
        new_row_def ex_args_def)
  have pn: "prev_sum 200000 ex_d1 = None"
    by (simp add: prev_sum_def latest_old_def sql_sum_def ex_d1_def)
  have tv: "total_value_query ex_d1 = None"
    by (simp add: total_value_query_def sql_sum_def ex_d1_def)
  from prev_value_fallback[of 200000 ex_old_db] ps
  have a: "map_option s_prev_value (get_summary_stats 200000 ex_old_db) = Some 30"
    by auto
  from get_summary_stats_fields[of 200000 ex_d1] tv
  have z: "map_option s_total_value (get_summary_stats 200000 ex_d1) = Some 0"
    by (auto simp: or_else_def)
  from prev_value_fallback[of 200000 ex_d1] pn z
  have b: "map_option s_prev_value (get_summary_stats 200000 ex_d1) = Some 0 \<and>
           map_option s_daily_change (get_summary_stats 200000 ex_d1) = Some 0 \<and>
           map_option s_daily_change_pct (get_summary_stats 200000 ex_d1) = Some 0"
    by auto
  from nt ps a pn b show ?thesis by simp
qed

section \<open>Properties of the analytics engine\<close>

lemma analyse_item_fields:
  "\<exists>a. analyse_item r = Some a \<and>
     i_id a = i_id r \<and> i_name a = i_name r \<and> i_quantity a = i_quantity r \<and>
     i_cost_basis a = i_cost_basis r \<and> i_is_sealed a = i_is_sealed r \<and>
     i_set_name a = i_set_name r \<and>
     current_price a = current_price r \<and> previous_price a = previous_price r \<and>
     it_total_value a = or_else (current_price r) 0 * of_int (i_quantity r) \<and>
     it_total_cost a = or_else (i_cost_basis r) 0 * of_int (i_quantity r) \<and>
     (has_pnl r \<longrightarrow> pnl a = Some (it_total_value a - it_total_cost a)) \<and>
     (\<not> has_pnl r \<longrightarrow> pnl a = None \<and> pnl_pct a = None)"
  by (cases "previous_price r"; cases "current_price r"; cases "i_cost_basis r")
     (simp_all add: analyse_item_def Let_def py_div_def truthy_def has_pnl_def item_row.defs)

lemma analyse_items_all2:
  "\<exists>as. analyse_items rs = Some as \<and> list_all2 (\<lambda>r a. analyse_item r = Some a) rs as"
proof (induction rs)
  case Nil
  show ?case by simp
next
  case (Cons r rs)
  from analyse_item_fields[of r] obtain a where "analyse_item r = Some a" by blast
  with Cons show ?case by auto
qed

lemma analysed_values:
  "list_all2 (\<lambda>r a. analyse_item r = Some a) rs as \<Longrightarrow> map it_total_value as = map item_value rs"
proof (induction rule: list_all2_induct)
  case Nil
  show ?case by simp
next
  case (Cons r rs a as)
  with analyse_item_fields[of r] show ?case by (auto simp: item_value_def)
qed

lemma analysed_pnl:
  assumes "list_all2 (\<lambda>r a. analyse_item r = Some a) rs as" and "a \<in> set as"
  shows "\<exists>r \<in> set rs. analyse_item r = Some a"
  using assms by (induction rule: list_all2_induct) auto

lemma analysed_columns:
  "list_all2 (\<lambda>r a. analyse_item r = Some a) rs as \<Longrightarrow>
     map i_cost_basis as = map i_cost_basis rs \<and> map current_price as = map current_price rs"
proof (induction rule: list_all2_induct)
  case Nil
  show ?case by simp
next
  case (Cons r rs a as)
  with analyse_item_fields[of r] show ?case by auto
qed

lemma analysed_no_pnl:
  assumes "analyse_item r = Some a"
    and "i_cost_basis a = None \<or> (\<exists>c. i_cost_basis a = Some c \<and> c \<le> 0) \<or> current_price a = None"
  shows "pnl a = None \<and> pnl_pct a = None"
proof -
  from analyse_item_fields[of r] assms(1)
  have f: "i_cost_basis a = i_cost_basis r" "current_price a = current_price r"
    "\<not> has_pnl r \<longrightarrow> pnl a = None \<and> pnl_pct a = None" by auto
  from assms(2) f(1,2) have "\<not> has_pnl r" by (auto simp: has_pnl_def)
  with f(3) show ?thesis by simp
qed

lemma map_insort_key: "map f (insort_key f x xs) = insort (f x) (map f xs)"
  by (induction xs) auto

lemma map_sort_key: "map f (sort_key f xs) = sort (map f xs)"
  by (induction xs) (simp_all add: map_insort_key)

lemma sort_mset_cong: "mset xs = mset ys \<Longrightarrow> sort xs = sort (ys :: real list)"
  by (rule properties_for_sort) simp_all

lemma map_sorted_desc: "map f (sorted_desc f xs) = rev (sort (map f xs))"
proof -
  have "map f (sorted_desc f xs) = rev (map f (sort_key f (rev xs)))"
    by (simp add: sorted_desc_def rev_map)
  also have "\<dots> = rev (sort (map f (rev xs)))"
    by (simp only: map_sort_key)
  also have "sort (map f (rev xs)) = sort (map f xs)"
    by (rule sort_mset_cong) simp
  finally show ?thesis .
qed

lemma top_values:
  "sum_list (map f (take n (sorted_desc f xs))) = sum_list (largest n (map f xs))"
  by (simp add: largest_def take_map[symmetric] map_sorted_desc)

lemma analyze_fields:
  assumes "analyse_items rows = Some its"
  shows "\<exists>a. analyze rows st = Some a \<and>
     an_items a = (if rows = [] then [] else its) \<and>
     top_5_value (an_concentration a) =
       (if rows = [] then 0 else sum_list (map it_total_value (take 5 (sorted_desc it_total_value its)))) \<and>
     top_5_pct (an_concentration a) =
       (if rows = [] \<or> s_total_value st = 0 then 0
        else sum_list (map it_total_value (take 5 (sorted_desc it_total_value its)))
               / s_total_value st * 100)"
  using assms
  by (simp add: analyze_def no_items_analysis_def pct_of_def py_div_def Let_def)

text \<open>
  C2. \<open>get_summary_stats\<close> returns, and when the total cost is absent or 0 its
  \<open>total_profit\<close> is \<open>None\<close>. \<open>analyze_portfolio\<close> returns on any rows and statistics,
  its items carry the cost basis and current price of the rows, and every item whose
  cost basis is absent or not positive, or whose current price is absent, has \<open>pnl\<close> and
  \<open>pnl_pct\<close> \<open>None\<close>.
\<close>

theorem no_cost_no_pnl:
  "(\<exists>st. get_summary_stats now d = Some st \<and>
      (total_cost_query d = None \<or> total_cost_query d = Some 0 \<longrightarrow> s_total_cost st = 0) \<and>
      (s_total_cost st = 0 \<longrightarrow> s_total_profit st = None)) \<and>
   (\<exists>a. analyze rows st' = Some a \<and>
      map i_cost_basis (an_items a) = map i_cost_basis rows \<and>
      map current_price (an_items a) = map current_price rows \<and>
      (\<forall>it \<in> set (an_items a).
          i_cost_basis it = None \<or> (\<exists>c. i_cost_basis it = Some c \<and> c \<le> 0) \<or>
          current_price it = None
          \<longrightarrow> pnl it = None \<and> pnl_pct it = None))"
proof
  from get_summary_stats_fields[of now d] obtain st where
    st: "get_summary_stats now d = Some st"
      "s_total_cost st = or_else (total_cost_query d) 0"
      "s_total_profit st =
         (if s_total_cost st = 0 then None else Some (s_total_value st - s_total_cost st))"
    by blast
  have "total_cost_query d = None \<or> total_cost_query d = Some 0 \<longrightarrow> s_total_cost st = 0"
    using st(2) by (auto simp: or_else_def)
  moreover have "s_total_cost st = 0 \<longrightarrow> s_total_profit st = None"
    using st(3) by simp
  ultimately show "\<exists>st. get_summary_stats now d = Some st \<and>
      (total_cost_query d = None \<or> total_cost_query d = Some 0 \<longrightarrow> s_total_cost st = 0) \<and>
      (s_total_cost st = 0 \<longrightarrow> s_total_profit st = None)"
    using st(1) by blast
next
  from analyse_items_all2[of rows] obtain its where
    its: "analyse_items rows = Some its" "list_all2 (\<lambda>r a. analyse_item r = Some a) rows its"
    by blast
  from analyze_fields[OF its(1), of st'] obtain a where
    a: "analyze rows st' = Some a" "an_items a = (if rows = [] then [] else its)" by blast
  from its(2) have len: "rows = [] \<longleftrightarrow> its = []" by (auto dest: list_all2_lengthD)
  with a(2) have items: "an_items a = its" by auto
  have cols: "map i_cost_basis (an_items a) = map i_cost_basis rows \<and>
      map current_price (an_items a) = map current_price rows"
    unfolding items by (rule analysed_columns[OF its(2)])
  have "\<forall>it \<in> set (an_items a).
          i_cost_basis it = None \<or> (\<exists>c. i_cost_basis it = Some c \<and> c \<le> 0) \<or>
          current_price it = None
          \<longrightarrow> pnl it = None \<and> pnl_pct it = None"
  proof (intro ballI impI)
    fix it
    assume "it \<in> set (an_items a)"
      and h: "i_cost_basis it = None \<or> (\<exists>c. i_cost_basis it = Some c \<and> c \<le> 0) \<or>
          current_price it = None"
    then have "it \<in> set its" by (simp add: items)
    from analysed_pnl[OF its(2) this] obtain r where "analyse_item r = Some it" by blast
    from analysed_no_pnl[OF this h] show "pnl it = None \<and> pnl_pct it = None" .
  qed
  with a(1) cols show "\<exists>a. analyze rows st' = Some a \<and>
      map i_cost_basis (an_items a) = map i_cost_basis rows \<and>
      map current_price (an_items a) = map current_price rows \<and>
      (\<forall>it \<in> set (an_items a).
          i_cost_basis it = None \<or> (\<exists>c. i_cost_basis it = Some c \<and> c \<le> 0) \<or>
          current_price it = None
          \<longrightarrow> pnl it = None \<and> pnl_pct it = None)"
    by blast
qed

theorem no_cost_no_pnl_witness:
  "total_cost_query ex_d1 = None \<and>
   map_option s_total_profit (get_summary_stats 0 ex_d1) = Some None \<and>
   i_cost_basis ex_row_a = None \<and>
   map_option (\<lambda>a. map pnl (an_items a)) (analyze [ex_row_a] ex_stats) = Some [None]"
proof -
  have q: "total_cost_query ex_d1 = None"
    by (simp add: total_cost_query_def sql_sum_def ex_d1_def new_row_def ex_args_def)
  have c: "i_cost_basis ex_row_a = None"
    by (simp add: ex_row_a_def join_row_def item.defs new_row_def ex_args_def)
  from no_cost_no_pnl [of 0 ex_d1 "[ex_row_a]" ex_stats] obtain st a where
    st: "get_summary_stats 0 ex_d1 = Some st"
      "total_cost_query ex_d1 = None \<or> total_cost_query ex_d1 = Some 0 \<longrightarrow> s_total_cost st = 0"
      "s_total_cost st = 0 \<longrightarrow> s_total_profit st = None"
    and a: "analyze [ex_row_a] ex_stats = Some a"
      "map i_cost_basis (an_items a) = map i_cost_basis [ex_row_a]"
      "\<forall>it \<in> set (an_items a).
          i_cost_basis it = None \<or> (\<exists>c. i_cost_basis it = Some c \<and> c \<le> 0) \<or>
          current_price it = None
          \<longrightarrow> pnl it = None \<and> pnl_pct it = None"
    by blast
  from st q have p: "map_option s_total_profit (get_summary_stats 0 ex_d1) = Some None"
    by simp
  from a(2) c obtain x where x: "an_items a = [x]" "i_cost_basis x = None"
    by (auto simp: map_eq_Cons_conv)
  with a(3) have "pnl x = None" by simp
  with a(1) x have "map_option (\<lambda>a. map pnl (an_items a)) (analyze [ex_row_a] ex_stats) = Some [None]"
    by simp
  with q p c show ?thesis by simp
qed

text \<open>
  C7. On any rows and statistics \<open>analyze_portfolio\<close> returns; its top-5 value is the
  sum of the 5 largest values of all the rows, and its top-5 percentage is that sum
  divided by the total value times 100, or 0 when the total value is 0. Both depend on
  the rows as a multiset only, so reordering the rows leaves the percentage unchanged.
\<close>

theorem top_5_order_invariant:
  "(\<exists>a. analyze rows st = Some a \<and>
      top_5_value (an_concentration a) = sum_list (largest 5 (map item_value rows)) \<and>
      top_5_pct (an_concentration a) =
        (if s_total_value st = 0 then 0
         else sum_list (largest 5 (map item_value rows)) / s_total_value st * 100)) \<and>
   (mset rows' = mset rows \<longrightarrow>
      map_option (\<lambda>a. top_5_pct (an_concentration a)) (analyze rows' st) =
      map_option (\<lambda>a. top_5_pct (an_concentration a)) (analyze rows st))"
proof -
  have char: "\<exists>a. analyze rs st = Some a \<and>
      top_5_value (an_concentration a) = sum_list (largest 5 (map item_value rs)) \<and>
      top_5_pct (an_concentration a) =
        (if s_total_value st = 0 then 0
         else sum_list (largest 5 (map item_value rs)) / s_total_value st * 100)" for rs
  proof -
    from analyse_items_all2[of rs] obtain its where
      its: "analyse_items rs = Some its" "list_all2 (\<lambda>r a. analyse_item r = Some a) rs its"
      by blast
    have v: "sum_list (map it_total_value (take 5 (sorted_desc it_total_value its)))
              = sum_list (largest 5 (map item_value rs))"
      by (simp only: top_values analysed_values[OF its(2)])
    have e: "rs = [] \<Longrightarrow> sum_list (largest 5 (map item_value rs)) = 0"
      by (simp add: largest_def)
    from analyze_fields[OF its(1), of st] show ?thesis
      unfolding v using e by auto
  qed
  have "largest 5 (map item_value rows') = largest 5 (map item_value rows)"
    if p: "mset rows' = mset rows"
  proof -
    have "mset (map item_value rows') = mset (map item_value rows)"
      using p by (metis mset_map)
    then have "sort (map item_value rows') = sort (map item_value rows)"
      by (rule sort_mset_cong)
    then show ?thesis by (simp add: largest_def)
  qed
  with char[of rows] char[of rows'] show ?thesis by auto
qed

theorem top_5_order_invariant_witness:
  "mset [ex_row_b, ex_row_a] = mset [ex_row_a, ex_row_b] \<and>
   map_option (\<lambda>a. top_5_pct (an_concentration a)) (analyze [ex_row_b, ex_row_a] ex_stats) = Some 100 \<and>
   map_option (\<lambda>a. top_5_pct (an_concentration a)) (analyze [ex_row_a, ex_row_b] ex_stats) = Some 100"
proof -
  have m: "mset [ex_row_b, ex_row_a] = mset [ex_row_a, ex_row_b]"
    by (simp add: add.commute)
  have v: "largest 5 (map item_value [ex_row_a, ex_row_b]) = [30, 10]"
    by (simp add: largest_def item_value_def ex_row_a_def ex_row_b_def join_row_def item.defs
        new_row_def or_else_def ex_args_def)
  have t: "s_total_value ex_stats = 40" by (simp add: ex_stats_def)
  from top_5_order_invariant [of "[ex_row_a, ex_row_b]" ex_stats "[ex_row_b, ex_row_a]"] m v t
  show ?thesis by auto
qed

section \<open>Properties of the recommendation heuristics\<close>




lemma ex_zero_items:
  "analyse_items ex_zero_rows = Some its \<Longrightarrow> map i_cost_basis its = [Some 0, Some 0]"
proof -
  assume a: "analyse_items ex_zero_rows = Some its"
  from analyse_items_all2[of ex_zero_rows] a
  have "list_all2 (\<lambda>r a. analyse_item r = Some a) ex_zero_rows its" by simp
  from analysed_columns[OF this] show ?thesis
    by (simp add: ex_zero_rows_def join_row_def item.defs new_row_def)
qed








section \<open>Properties of the import\<close>

lemma contains_sublist: "contains k s \<longleftrightarrow> sublist k s"
  by (induction s) (simp_all add: sublist_Cons_right)

lemma any_keyword_iff: "any_keyword ks n \<longleftrightarrow> (\<exists>k \<in> set ks. sublist k n)"
  by (induction ks) (simp_all add: contains_sublist)

lemma ex_lower_category: "ascii_lower ''Sealed Booster Box'' = ''sealed booster box''"
  by code_simp

lemma ex_lower_name: "ascii_lower ''Scarlet & Violet Booster Box'' = ''scarlet & violet booster box''"
  by code_simp

lemma ex_category_rule: "contains ''sealed'' ''sealed booster box''"
  by code_simp

lemma ex_keyword_rule: "contains ''booster'' ''scarlet & violet booster box''"
  by code_simp

text \<open>
  C6. For every category and name, the classifier answers sealed exactly when the
  lowercased category contains \<open>sealed\<close> or the lowercased name contains one of the
  eleven keywords; whatever \<open>str.lower\<close> does. The category \<open>Sealed Booster Box\<close> with
  the name \<open>Scarlet & Violet Booster Box\<close> is sealed, by the category rule and by the
  keyword \<open>booster\<close>.
\<close>

theorem classify_sealed:
  "(is_sealed_product lower (Some category) (Some name) \<longleftrightarrow>
      sublist ''sealed'' (lower category) \<or>
      (\<exists>k \<in> {''sealed'', ''booster'', ''box'', ''pack'', ''etb'', ''elite trainer'',
                ''collection'', ''tin'', ''bundle'', ''case'', ''display''}.
          sublist k (lower name))) \<and>
   is_sealed_product ascii_lower (Some ''Sealed Booster Box'') (Some ''Scarlet & Violet Booster Box'') \<and>
   sublist ''sealed'' (ascii_lower ''Sealed Booster Box'') \<and>
   sublist ''booster'' (ascii_lower ''Scarlet & Violet Booster Box'')"
proof -
  have gen: "is_sealed_product lw (Some c) (Some n) \<longleftrightarrow>
      sublist ''sealed'' (lw c) \<or>
      (\<exists>k \<in> {''sealed'', ''booster'', ''box'', ''pack'', ''etb'', ''elite trainer'',
                ''collection'', ''tin'', ''bundle'', ''case'', ''display''}.
          sublist k (lw n))" for lw c n
    by (simp add: is_sealed_product_def or_empty_def Let_def contains_sublist any_keyword_iff
        sealed_keywords_def)
  have c: "sublist ''sealed'' (ascii_lower ''Sealed Booster Box'')"
    using ex_category_rule by (simp only: ex_lower_category contains_sublist)
  have k: "sublist ''booster'' (ascii_lower ''Scarlet & Violet Booster Box'')"
    using ex_keyword_rule by (simp only: ex_lower_name contains_sublist)
  from c have s: "is_sealed_product ascii_lower (Some ''Sealed Booster Box'')
      (Some ''Scarlet & Violet Booster Box'')"
    by (simp only: gen simp_thms)
  show ?thesis
    by (rule conjI[OF gen conjI[OF s conjI[OF c k]]])
qed

theorem classify_sealed_witness:
  "sublist ''tin'' (ascii_lower ''Charizard Tin'') \<and>
   is_sealed_product ascii_lower (Some ''Pokemon'') (Some ''Charizard Tin'')"
proof -
  have l: "ascii_lower ''Charizard Tin'' = ''charizard tin''" by code_simp
  have "contains ''tin'' ''charizard tin''" by code_simp
  then have s: "sublist ''tin'' (ascii_lower ''Charizard Tin'')"
    by (simp only: l contains_sublist)
  have m: "''tin'' \<in> {''sealed'', ''booster'', ''box'', ''pack'', ''etb'', ''elite trainer'',
                ''collection'', ''tin'', ''bundle'', ''case'', ''display''}" by simp
  have "\<exists>k \<in> {''sealed'', ''booster'', ''box'', ''pack'', ''etb'', ''elite trainer'',
                ''collection'', ''tin'', ''bundle'', ''case'', ''display''}.
          sublist k (ascii_lower ''Charizard Tin'')"
    by (rule bexI[where P = "\<lambda>k. sublist k (ascii_lower ''Charizard Tin'')", OF s m])
  then have "sublist ''sealed'' (ascii_lower ''Pokemon'') \<or>
      (\<exists>k \<in> {''sealed'', ''booster'', ''box'', ''pack'', ''etb'', ''elite trainer'',
                ''collection'', ''tin'', ''bundle'', ''case'', ''display''}.
          sublist k (ascii_lower ''Charizard Tin''))"
    by (rule disjI2)
  then have "is_sealed_product ascii_lower (Some ''Pokemon'') (Some ''Charizard Tin'')"
    by (rule iffD2[OF classify_sealed [THEN conjunct1]])
  with s show ?thesis by (rule conjI)
qed

lemma items_import_row:
  "c_name row \<noteq> [] \<Longrightarrow>
     items (snd (import_row lower np nd i row (st, d))) =
     items (snd (upsert_item np
        (import_args (is_sealed_product lower (Some (c_category row)) (Some (c_name row))) row) d))"
  by (simp add: import_row_def Let_def split_def split: option.splits)

lemma prices_import_row:
  "prices (snd (import_row lower np nd i row (st, d))) =
     prices d @
       (if c_name row = [] then []
        else case py_or (c_price_override row) (c_market_price row) of
               Some p \<Rightarrow>
                 if 0 < p
                 then [\<lparr>p_id = next_price_id d,
                        p_item_id = fst (upsert_item np
                          (import_args (is_sealed_product lower (Some (c_category row))
                             (Some (c_name row))) row) d),
                        p_price = p, p_timestamp = nd\<rparr>]
                 else []
             | None \<Rightarrow> [])"
proof -
  have n: "next_price_id (snd (upsert_item np a d)) = next_price_id d" for a
    by (simp add: upsert_item_def Let_def split: option.splits)
  show ?thesis
    by (auto simp: import_row_def Let_def split_def record_price_def n split: option.splits)
qed

lemma prices_import_rows:
  "\<exists>new. prices (snd (import_rows lower cp cd i rows sd)) = prices (snd sd) @ new \<and>
         (\<forall>p \<in> set new. 0 < p_price p)"
proof (induction rows arbitrary: i sd)
  case Nil
  show ?case by simp
next
  case (Cons row rows)
  obtain st d where sd: "sd = (st, d)" by (cases sd)
  let ?sd' = "import_row lower (cp i) (cd i) i row sd"
  from prices_import_row[of lower "cp i" "cd i" i row st d]
  obtain one where one: "prices (snd ?sd') = prices (snd sd) @ one" "\<forall>p \<in> set one. 0 < p_price p"
    unfolding sd by (auto split: option.splits if_splits)
  from Cons.IH[of "Suc i" ?sd'] obtain more where
    more: "prices (snd (import_rows lower cp cd (Suc i) rows ?sd')) = prices (snd ?sd') @ more"
      "\<forall>p \<in> set more. 0 < p_price p" by blast
  have "prices (snd (import_rows lower cp cd i (row # rows) sd)) = prices (snd sd) @ (one @ more)"
    using one(1) more(1) by simp
  moreover have "\<forall>p \<in> set (one @ more). 0 < p_price p"
    using one(2) more(2) by auto
  ultimately show ?case by blast
qed

text \<open>
  C9. The price that \<open>import_csv\<close> selects for a row is the price override when that is
  present and not zero, whatever the market price, and the market price when the
  override is absent or zero. Importing a row appends exactly one observation, with
  the selected price and the id that the upsert returned, when the row has a name and
  the selected price is present and strictly positive, and none otherwise. So every
  observation that an import adds to the store has a strictly positive price.
\<close>

theorem import_records_selected_price:
  "(c_price_override row = Some x \<and> x \<noteq> 0
      \<longrightarrow> py_or (c_price_override row) (c_market_price row) = Some x) \<and>
   (c_price_override row = None \<or> c_price_override row = Some 0
      \<longrightarrow> py_or (c_price_override row) (c_market_price row) = c_market_price row) \<and>
   prices (snd (import_row lower np nd i row (st, d))) =
     prices d @
       (if c_name row = [] then []
        else case py_or (c_price_override row) (c_market_price row) of
               Some p \<Rightarrow>
                 if 0 < p
                 then [\<lparr>p_id = next_price_id d,
                        p_item_id = fst (upsert_item np
                          (import_args (is_sealed_product lower (Some (c_category row))
                             (Some (c_name row))) row) d),
                        p_price = p, p_timestamp = nd\<rparr>]
                 else []
             | None \<Rightarrow> []) \<and>
   (\<exists>new. prices (snd (import_csv lower cp cd rows d)) = prices d @ new \<and>
          (\<forall>p \<in> set new. 0 < p_price p))"
proof -
  have a: "c_price_override row = Some x \<and> x \<noteq> 0
      \<longrightarrow> py_or (c_price_override row) (c_market_price row) = Some x"
    by (simp add: py_or_def truthy_def)
  have b: "c_price_override row = None \<or> c_price_override row = Some 0
      \<longrightarrow> py_or (c_price_override row) (c_market_price row) = c_market_price row"
    by (auto simp: py_or_def truthy_def)
  have c: "\<exists>new. prices (snd (import_csv lower cp cd rows d)) = prices d @ new \<and>
          (\<forall>p \<in> set new. 0 < p_price p)"
    unfolding import_csv_def
    using prices_import_rows[of lower cp cd 0 rows
        "(\<lparr>st_total = length rows, st_imported = 0, st_updated = 0, st_cards = 0,
           st_sealed = 0, st_errors = []\<rparr>, d)"]
    by simp
  from a b prices_import_row[of lower np nd i row st d] c show ?thesis by blast
qed

theorem import_records_selected_price_witness:
  "c_price_override ex_csv_row = Some 12 \<and> (12 :: real) \<noteq> 0 \<and>
   py_or (c_price_override ex_csv_row) (c_market_price ex_csv_row) = Some 12 \<and>
   map (\<lambda>p. (p_item_id p, p_price p))
       (prices (snd (import_row ascii_lower 20 21 0 ex_csv_row (ex_import_stats, ex_d1))))
     = [(1, 12)] \<and>
   c_price_override (ex_csv_row\<lparr>c_price_override := None\<rparr>) = None \<and>
   py_or (c_price_override (ex_csv_row\<lparr>c_price_override := None\<rparr>))
         (c_market_price (ex_csv_row\<lparr>c_price_override := None\<rparr>)) = Some 10"
proof -
  have o: "c_price_override ex_csv_row = Some 12" by (simp add: ex_csv_row_def)
  have n: "c_name ex_csv_row \<noteq> []" by (simp add: ex_csv_row_def)
  have m: "c_market_price (ex_csv_row\<lparr>c_price_override := None\<rparr>) = Some 10"
    by (simp add: ex_csv_row_def)
  have k: "find (key_match (import_args s ex_csv_row)) (items ex_d1) = Some (new_row 10 ex_args 1)"
    for s
    by (simp add: ex_d1_def key_match_def import_args_def or_none_def new_row_def ex_args_def
        ex_csv_row_def)
  have u: "fst (upsert_item 20 (import_args s ex_csv_row) ex_d1) = 1" for s
    by (simp add: upsert_item_def k)
  have e: "prices ex_d1 = []" by (simp add: ex_d1_def)
  note t = import_records_selected_price
    [where row = ex_csv_row and x = 12 and lower = ascii_lower and np = 20 and nd = 21
       and i = 0 and st = ex_import_stats and d = ex_d1]
  note t' = import_records_selected_price
    [where row = "ex_csv_row\<lparr>c_price_override := None\<rparr>" and x = 12]
  from t o have p: "py_or (c_price_override ex_csv_row) (c_market_price ex_csv_row) = Some 12"
    by simp
  from t have "prices (snd (import_row ascii_lower 20 21 0 ex_csv_row (ex_import_stats, ex_d1)))
      = [\<lparr>p_id = next_price_id ex_d1, p_item_id = 1, p_price = 12, p_timestamp = 21\<rparr>]"
    by (simp add: p n u e)
  moreover from t' m have "py_or (c_price_override (ex_csv_row\<lparr>c_price_override := None\<rparr>))
         (c_market_price (ex_csv_row\<lparr>c_price_override := None\<rparr>)) = Some 10"
    by simp
  ultimately show ?thesis using o p by simp
qed

text \<open>
  C10. \<open>import_csv\<close> turns a blank text into NULL before the upsert. So a row with a
  name, importing into a store built from the empty one that holds an item of that
  name whose optional key columns are NULL where the row is blank and equal to the
  row's text elsewhere, adds no item: the one row with that key keeps its id and takes
  the quantity of the CSV row.
\<close>

theorem blank_key_is_null:
  assumes name: "c_name row \<noteq> []"
    and it: "it \<in> set (items (run history init_db))"
    and same: "i_name it = c_name row"
    and blank: "blank_matches (c_set_name row) (i_set_name it)"
      "blank_matches (c_card_number row) (i_card_number it)"
      "blank_matches (c_variance row) (i_variance it)"
      "blank_matches (c_grade row) (i_grade it)"
      "blank_matches (c_condition row) (i_condition it)"
  shows "or_none [] = None \<and>
         length (items (snd (import_row lower np nd i row (st, run history init_db))))
           = length (items (run history init_db)) \<and>
         (\<exists>r. rows_with_key (item_key it) (snd (import_row lower np nd i row (st, run history init_db)))
                 = [r] \<and> i_id r = i_id it \<and> i_quantity r = c_quantity row)"
proof -
  let ?a = "import_args (is_sealed_product lower (Some (c_category row)) (Some (c_name row))) row"
  let ?d = "run history init_db"
  have key: "item_key it = args_key ?a"
    using same blank
    by (auto simp: item_key_def args_key_def import_args_def or_none_def blank_matches_def)
  note r = upsert_existing_row[OF wf_run[OF wf_init] it key, of np]
  have rk: "rows_with_key k (snd (import_row lower np nd i row (st, ?d)))
              = rows_with_key k (snd (upsert_item np ?a ?d))" for k
    by (simp add: rows_with_key_def items_import_row[OF name])
  have "i_quantity (update_row np ?a it) = c_quantity row"
    by (simp add: update_row_def import_args_def)
  then show ?thesis
    using r(2,3) by (simp add: rk key items_import_row[OF name] or_none_def)
qed

theorem blank_key_is_null_witness:
  "c_name ex_csv_row \<noteq> [] \<and>
   new_row 10 ex_args 1 \<in> set (items (run [Upsert 10 ex_args] init_db)) \<and>
   blank_matches (c_set_name ex_csv_row) (i_set_name (new_row 10 ex_args 1)) \<and>
   blank_matches (c_card_number ex_csv_row) (i_card_number (new_row 10 ex_args 1)) \<and>
   (\<exists>r. rows_with_key (item_key (new_row 10 ex_args 1))
           (snd (import_row ascii_lower 20 21 0 ex_csv_row
                   (ex_import_stats, run [Upsert 10 ex_args] init_db))) = [r] \<and>
        i_id r = 1 \<and> i_quantity r = 2)"
proof -
  have n: "c_name ex_csv_row \<noteq> []" by (simp add: ex_csv_row_def)
  have i: "new_row 10 ex_args 1 \<in> set (items (run [Upsert 10 ex_args] init_db))"
    by (simp add: upsert_item_def init_db_def)
  have s: "i_name (new_row 10 ex_args 1) = c_name ex_csv_row"
    by (simp add: new_row_def ex_args_def ex_csv_row_def)
  have b1: "blank_matches (c_set_name ex_csv_row) (i_set_name (new_row 10 ex_args 1))"
    by (simp add: blank_matches_def new_row_def ex_args_def ex_csv_row_def)
  have b2: "blank_matches (c_card_number ex_csv_row) (i_card_number (new_row 10 ex_args 1))"
    by (simp add: blank_matches_def new_row_def ex_args_def ex_csv_row_def)
  have b3: "blank_matches (c_variance ex_csv_row) (i_variance (new_row 10 ex_args 1))"
    by (simp add: blank_matches_def new_row_def ex_args_def ex_csv_row_def)
  have b4: "blank_matches (c_grade ex_csv_row) (i_grade (new_row 10 ex_args 1))"
    by (simp add: blank_matches_def new_row_def ex_args_def ex_csv_row_def)
  have b5: "blank_matches (c_condition ex_csv_row) (i_condition (new_row 10 ex_args 1))"
    by (simp add: blank_matches_def new_row_def ex_args_def ex_csv_row_def)
  have q: "c_quantity ex_csv_row = 2" by (simp add: ex_csv_row_def)
  from blank_key_is_null [OF n i s b1 b2 b3 b4 b5, of ascii_lower 20 21 0 ex_import_stats]
  have "\<exists>r. rows_with_key (item_key (new_row 10 ex_args 1))
           (snd (import_row ascii_lower 20 21 0 ex_csv_row
                   (ex_import_stats, run [Upsert 10 ex_args] init_db))) = [r] \<and>
        i_id r = 1 \<and> i_quantity r = 2"
    by (simp add: q)
  with n i b1 b2 show ?thesis by simp
qed

end
